theory Spec2Isabelle
  imports Main "HOL-Library.Sublist" "HOL-Library.AList" "HOL-Library.Multiset" "HOL-Library.Word"
begin

section \<open>Python values used by the floor-photo data loader\<close>

text \<open>
  The loader of \<^verbatim>\<open>_data_floor_photo_xy.py\<close> raises \<^verbatim>\<open>AssertionError\<close> (every
  \<^verbatim>\<open>assert\<close>, with its message), \<^verbatim>\<open>IndexError\<close> (list and tuple indexing),
  \<^verbatim>\<open>KeyError\<close> (dictionary lookup and \<^verbatim>\<open>del\<close>) and \<^verbatim>\<open>ValueError\<close>
  (\<^verbatim>\<open>int\<close> of a malformed string, a stream that is neither x nor y).
  A function that can raise returns \<open>error + 'a\<close>, with \<open>Inl\<close> for the exception.
\<close>

datatype error = AssertionError string | IndexError | KeyError | ValueError

definition bind_err :: "error + 'a \<Rightarrow> ('a \<Rightarrow> error + 'b) \<Rightarrow> error + 'b" where
  "bind_err m f = (case m of Inl e \<Rightarrow> Inl e | Inr x \<Rightarrow> f x)"

definition py_assert :: "bool \<Rightarrow> string \<Rightarrow> error + unit" where
  "py_assert b msg = (if b then Inr () else Inl (AssertionError msg))"

text \<open>\<^verbatim>\<open>xs[i]\<close>: a negative index counts from the end, an index out of range raises.\<close>

definition py_index :: "'a list \<Rightarrow> int \<Rightarrow> error + 'a" where
  "py_index xs i =
     (if 0 \<le> i \<and> i < int (length xs) then Inr (xs ! nat i)
      else if - int (length xs) \<le> i \<and> i < 0 then Inr (xs ! nat (int (length xs) + i))
      else Inl IndexError)"

text \<open>\<^verbatim>\<open>range(a, b)\<close> over integers.\<close>

definition py_range :: "int \<Rightarrow> int \<Rightarrow> int list" where
  "py_range a b = map (\<lambda>k. a + int k) [0..<nat (b - a)]"

text \<open>A loop whose body only checks: it stops at the first exception.\<close>

fun for_each :: "('a \<Rightarrow> error + unit) \<Rightarrow> 'a list \<Rightarrow> error + unit" where
  "for_each f [] = Inr ()"
| "for_each f (x # xs) = (case f x of Inl e \<Rightarrow> Inl e | Inr _ \<Rightarrow> for_each f xs)"

text \<open>A loop that appends one computed element per iteration.\<close>

fun map_err :: "('a \<Rightarrow> error + 'b) \<Rightarrow> 'a list \<Rightarrow> error + 'b list" where
  "map_err f [] = Inr []"
| "map_err f (x # xs) =
     (case f x of Inl e \<Rightarrow> Inl e
      | Inr y \<Rightarrow> (case map_err f xs of Inl e \<Rightarrow> Inl e | Inr ys \<Rightarrow> Inr (y # ys)))"

subsection \<open>Strings\<close>

text \<open>
  A string is a list of characters with code points below 256. \<^verbatim>\<open>str.strip()\<close>
  drops the white space of that range: U+0009..U+000D, U+001C..U+0020, U+0085 and U+00A0.
\<close>

definition is_space :: "char \<Rightarrow> bool" where
  "is_space c = (let n = (of_char c :: nat) in
     (9 \<le> n \<and> n \<le> 13) \<or> (28 \<le> n \<and> n \<le> 32) \<or> n = 133 \<or> n = 160)"

definition py_strip :: "string \<Rightarrow> string" where
  "py_strip s = rev (dropWhile is_space (rev (dropWhile is_space s)))"

text \<open>
  \<^verbatim>\<open>int()\<close> skips less: the separators U+001C..U+001F are white space for
  \<^verbatim>\<open>str.strip()\<close>, and no part of a number for \<^verbatim>\<open>int()\<close>.
\<close>

definition is_int_space :: "char \<Rightarrow> bool" where
  "is_int_space c = (let n = (of_char c :: nat) in
     (9 \<le> n \<and> n \<le> 13) \<or> n = 32 \<or> n = 133 \<or> n = 160)"

definition int_strip :: "string \<Rightarrow> string" where
  "int_strip s = rev (dropWhile is_int_space (rev (dropWhile is_int_space s)))"

text \<open>
  \<^verbatim>\<open>s.split(sep)\<close> for a non-empty separator (the source splits at \<^verbatim>\<open>','\<close>,
  \<^verbatim>\<open>'-'\<close> and \<^verbatim>\<open>'part'\<close>): the occurrences of \<open>sep\<close> are found from left to
  right, without overlap.
\<close>

fun py_split :: "string \<Rightarrow> string \<Rightarrow> string list" where
  "py_split sep [] = [[]]"
| "py_split sep (c # cs) =
     (if prefix sep (c # cs) then [] # py_split sep (drop (length sep - 1) cs)
      else (case py_split sep cs of [] \<Rightarrow> [[c]] | f # fs \<Rightarrow> (c # f) # fs))"

text \<open>\<^verbatim>\<open>sub in s\<close> for strings.\<close>

fun py_in :: "string \<Rightarrow> string \<Rightarrow> bool" where
  "py_in sub [] = (sub = [])"
| "py_in sub (c # cs) = (prefix sub (c # cs) \<or> py_in sub cs)"

text \<open>
  \<^verbatim>\<open>int(s)\<close>: white space around, an optional sign, then decimal digits, where single
  underscores may stand between digits; anything else raises \<^verbatim>\<open>ValueError\<close>. The
  bound that recent Python versions put on the number of digits (4300 unless configured
  otherwise) is not part of the model: the ids of a manifest are far shorter.
\<close>

definition is_digit :: "char \<Rightarrow> bool" where
  "is_digit c = (let n = (of_char c :: nat) in 48 \<le> n \<and> n \<le> 57)"

definition digit_val :: "char \<Rightarrow> nat" where
  "digit_val c = of_char c - 48"

fun parse_digits :: "nat \<Rightarrow> string \<Rightarrow> nat option" where
  "parse_digits acc [] = Some acc"
| "parse_digits acc [c] = (if is_digit c then Some (10 * acc + digit_val c) else None)"
| "parse_digits acc (c # d # ds) =
     (if is_digit c then parse_digits (10 * acc + digit_val c) (d # ds)
      else if c = CHR ''_'' \<and> is_digit d then parse_digits (10 * acc + digit_val d) ds
      else None)"

definition parse_unsigned :: "string \<Rightarrow> nat option" where
  "parse_unsigned s =
     (case s of [] \<Rightarrow> None
      | c # cs \<Rightarrow> if is_digit c then parse_digits (digit_val c) cs else None)"

definition py_int :: "string \<Rightarrow> error + int" where
  "py_int s =
     (case int_strip s of
        [] \<Rightarrow> Inl ValueError
      | c # cs \<Rightarrow>
          (if c = CHR ''-'' then
             (case parse_unsigned cs of None \<Rightarrow> Inl ValueError | Some n \<Rightarrow> Inr (- int n))
           else if c = CHR ''+'' then
             (case parse_unsigned cs of None \<Rightarrow> Inl ValueError | Some n \<Rightarrow> Inr (int n))
           else
             (case parse_unsigned (c # cs) of None \<Rightarrow> Inl ValueError | Some n \<Rightarrow> Inr (int n))))"


subsection \<open>Dictionaries\<close>

text \<open>
  A \<^verbatim>\<open>dict\<close> keeps its keys in insertion order, and the order is observable
  (\<^verbatim>\<open>list(d.keys())\<close>): it is an association list with distinct keys.
  \<^verbatim>\<open>d[k] = v\<close> is \<^const>\<open>AList.update\<close> (an existing key keeps its position, a new key
  goes last).
\<close>

type_synonym ('k, 'v) dict = "('k \<times> 'v) list"

definition dict_get :: "('k, 'v) dict \<Rightarrow> 'k \<Rightarrow> error + 'v" where
  "dict_get d k = (case map_of d k of None \<Rightarrow> Inl KeyError | Some v \<Rightarrow> Inr v)"

definition dict_del :: "('k, 'v) dict \<Rightarrow> 'k \<Rightarrow> error + ('k, 'v) dict" where
  "dict_del d k = (if k \<in> set (map fst d) then Inr (AList.delete k d) else Inl KeyError)"

fun fold_err :: "('s \<Rightarrow> 'a \<Rightarrow> error + 's) \<Rightarrow> 'a list \<Rightarrow> 's \<Rightarrow> error + 's" where
  "fold_err f [] s = Inr s"
| "fold_err f (x # xs) s = (case f s x of Inl e \<Rightarrow> Inl e | Inr s' \<Rightarrow> fold_err f xs s')"

section \<open>The part-index parser: \<^verbatim>\<open>_load_photo_parts\<close>\<close>

text \<open>
  A manifest record reads \<^verbatim>\<open>219712, 18581-61-6-part119\<close>: the global id, then the rect
  id (or \<^verbatim>\<open>[NULL]\<close>), the project id, the mutator id and the part.
\<close>

definition get_part :: "string \<Rightarrow> error + int" where
  "get_part line = bind_err (py_index (py_split ''part'' line) 1) py_int"

definition get_id :: "string \<Rightarrow> error + int" where
  "get_id line = bind_err (py_index (py_split '','' line) 0) py_int"

text \<open>\<^verbatim>\<open>line.split(',')[1].strip().split('-')\<close>, shared by the parser and the part loader.\<close>

definition id_fields :: "string \<Rightarrow> error + string list" where
  "id_fields line =
     bind_err (py_index (py_split '','' line) 1) (\<lambda>f. Inr (py_split ''-'' (py_strip f)))"

definition get_project_id :: "string \<Rightarrow> error + int" where
  "get_project_id line =
     bind_err (id_fields line) (\<lambda>k.
       if \<not> py_in ''[NULL]'' line then bind_err (py_index k 1) py_int
       else bind_err (py_index k 2) py_int)"

text \<open>The lines of the file, stripped, without the header and the blank lines.\<close>

definition read_photo_files :: "string list \<Rightarrow> string list" where
  "read_photo_files raw =
     filter (\<lambda>n. \<not> (n = ''ID,File'' \<or> length n = 0)) (map py_strip raw)"

record parts_loop =
  partsid :: "(int, int \<times> int) dict"
  projectid :: "(int, int list) dict"
  last_part :: int
  last_part_id :: int
  last_id :: int

definition parts_init :: parts_loop where
  "parts_init =
     \<lparr>partsid = [], projectid = [(0, [])], last_part = 0, last_part_id = 0, last_id = 0\<rparr>"

text \<open>One iteration of \<^verbatim>\<open>for j in photo_files\<close>.\<close>

definition parts_step :: "parts_loop \<Rightarrow> string \<Rightarrow> error + parts_loop" where
  "parts_step s j =
     bind_err (get_part j) (\<lambda>part_j.
     bind_err
       (if part_j \<noteq> last_part s then
          bind_err (get_part j) (\<lambda>lp.
          bind_err (get_id j) (\<lambda>lpi.
            Inr (s\<lparr>partsid := AList.update (last_part s) (last_part_id s, last_id s) (partsid s),
                   projectid := AList.update part_j [] (projectid s),
                   last_part := lp,
                   last_part_id := lpi\<rparr>)))
        else Inr s) (\<lambda>s1.
     bind_err (get_id j) (\<lambda>lid.
     bind_err (get_project_id j) (\<lambda>project_id.
     bind_err (dict_get (projectid s1) part_j) (\<lambda>ps.
       Inr (s1\<lparr>last_id := lid,
                projectid :=
                  (if project_id \<notin> set ps
                   then AList.update part_j (ps @ [project_id]) (projectid s1)
                   else projectid s1)\<rparr>))))))"

text \<open>One iteration of the final \<^verbatim>\<open>for k in range(len(parts_key) - 1)\<close>.\<close>

definition check_part :: "(int, int \<times> int) dict \<Rightarrow> int list \<Rightarrow> nat \<Rightarrow> error + unit" where
  "check_part d parts_key k =
     bind_err (py_index parts_key (int k + 1)) (\<lambda>k1.
     bind_err (py_index parts_key (int k)) (\<lambda>k0.
     bind_err (py_assert (k1 - k0 = 1) ''Parts should diff in 1 unit'') (\<lambda>_.
     bind_err (dict_get d k1) (\<lambda>r1.
     bind_err (dict_get d k0) (\<lambda>r0.
     bind_err (py_assert (fst r1 = snd r0 + 1) ''Invalid part lower continuity'') (\<lambda>_.
     py_assert (snd r0 - fst r0 \<ge> 1) ''Invalid part size''))))))"

text \<open>
  \<^verbatim>\<open>_load_photo_parts\<close>, from the lines of the manifest file (the file is there: the
  function asserts it first).
\<close>

definition load_photo_parts ::
  "string list \<Rightarrow> error + (string list \<times> (int, int \<times> int) dict \<times> (int, int list) dict)" where
  "load_photo_parts raw =
     (let photo_files = read_photo_files raw in
      bind_err (py_index photo_files (- 1)) (\<lambda>lastline.
      bind_err (get_part lastline) (\<lambda>total_parts.
      bind_err (py_assert (total_parts > 1)
                  ''Number of parts cannot be lower or equal than 1'') (\<lambda>_.
      bind_err (fold_err parts_step photo_files parts_init) (\<lambda>s.
      bind_err (dict_del (AList.update (last_part s) (last_part_id s, last_id s) (partsid s)) 0)
        (\<lambda>pid.
      bind_err (dict_del (projectid s) 0) (\<lambda>prj.
      (let parts_key = map fst pid in
       bind_err (py_assert (int (length parts_key) = total_parts)
                   ''Number of parts does not match'') (\<lambda>_.
       bind_err (for_each (check_part pid parts_key) [0..<length parts_key - 1]) (\<lambda>_.
         Inr (photo_files, pid, prj)))))))))))"

text \<open>
  The null marker occupies the rect-id field: the first field after the comma is the
  marker, white space aside. This is the test of \<^verbatim>\<open>_load_id\<close>.
\<close>

definition null_rect_field :: "string \<Rightarrow> bool" where
  "null_rect_field line =
     (case id_fields line of Inl _ \<Rightarrow> False
      | Inr k \<Rightarrow> (case py_index k 0 of Inl _ \<Rightarrow> False | Inr k0 \<Rightarrow> py_strip k0 = ''[NULL]''))"

section \<open>The part loader: \<^verbatim>\<open>load_part\<close> and \<^verbatim>\<open>_load_data_part\<close>\<close>

subsection \<open>Arrays and the library calls\<close>

text \<open>
  An image as \<^verbatim>\<open>np.load\<close> returns it: its shape and its values in row-major order.
  The values are 8-bit unsigned pixels when the dtype is \<^verbatim>\<open>uint8\<close>, and values of
  another dtype \<open>'f\<close> otherwise.
\<close>

datatype 'f image = ImgU8 "nat list" "8 word list" | ImgOther "nat list" "'f list"

fun img_shape :: "'f image \<Rightarrow> nat list" where
  "img_shape (ImgU8 sh _) = sh"
| "img_shape (ImgOther sh _) = sh"

type_synonym u8image = "nat list \<times> 8 word list"

text \<open>
  The two calls into libraries that work on pixel values: \<^verbatim>\<open>ndarray.astype('uint8')\<close>
  on the values of another dtype, and \<^verbatim>\<open>cv2.resize(src, dsize=(n, n),
  interpolation=cv2.INTER_AREA)\<close>. They are parameters of the model.
\<close>

record 'f pixel_ops =
  astype_uint8 :: "'f list \<Rightarrow> 8 word list"
  cv2_resize :: "int \<Rightarrow> u8image \<Rightarrow> u8image"

text \<open>\<^verbatim>\<open>np.stack((fri,) * ch, axis=-1)\<close>: no array to stack raises \<^verbatim>\<open>ValueError\<close>.\<close>

definition np_stack_last :: "int \<Rightarrow> u8image \<Rightarrow> error + u8image" where
  "np_stack_last ch fri =
     (if ch \<le> 0 then Inl ValueError
      else Inr (fst fri @ [nat ch], concat (map (replicate (nat ch)) (snd fri))))"

text \<open>\<^verbatim>\<open>np.min\<close> and \<^verbatim>\<open>np.max\<close> raise \<^verbatim>\<open>ValueError\<close> on an array without elements.\<close>

definition np_min :: "u8image \<Rightarrow> error + 8 word" where
  "np_min fri = (case snd fri of [] \<Rightarrow> Inl ValueError | p # ps \<Rightarrow> Inr (fold min ps p))"

definition np_max :: "u8image \<Rightarrow> error + 8 word" where
  "np_max fri = (case snd fri of [] \<Rightarrow> Inl ValueError | p # ps \<Rightarrow> Inr (fold max ps p))"

text \<open>\<^verbatim>\<open>np.multiply(fri, 255, dtype=fri.dtype)\<close> on 8-bit pixels: the product wraps.\<close>

definition np_multiply_255 :: "u8image \<Rightarrow> u8image" where
  "np_multiply_255 fri = (fst fri, map (\<lambda>p. p * 255) (snd fri))"

text \<open>\<^verbatim>\<open>np.where(a == v)[0]\<close>: the positions that hold \<open>v\<close>, ascending.\<close>

definition np_where_eq :: "int list \<Rightarrow> int \<Rightarrow> nat list" where
  "np_where_eq a v = filter (\<lambda>j. a ! j = v) [0..<length a]"

text \<open>\<^verbatim>\<open>np.delete(a, idx, axis=0)\<close>: a position beyond the array raises.\<close>

definition np_delete :: "'a list \<Rightarrow> nat list \<Rightarrow> error + 'a list" where
  "np_delete a idx =
     (if \<forall>j \<in> set idx. j < length a
      then Inr (map fst (filter (\<lambda>p. snd p \<notin> set idx) (zip a [0..<length a])))
      else Inl IndexError)"

text \<open>\<^verbatim>\<open>a[indices]\<close> with an array of positions.\<close>

definition np_take :: "'a list \<Rightarrow> nat list \<Rightarrow> error + 'a list" where
  "np_take a indices = map_err (\<lambda>i. py_index a (int i)) indices"

text \<open>
  The state of NumPy's global generator is the sequence of raw draws it will give.
  \<^verbatim>\<open>np.random.shuffle\<close> on a one-dimensional array walks \<open>i\<close> from the last position
  down to 1, draws \<open>j\<close> from \<open>0..i\<close> and swaps the elements at \<open>i\<close> and \<open>j\<close>.
\<close>

type_synonym rng = "nat list"

definition random_interval :: "rng \<Rightarrow> nat \<Rightarrow> nat \<times> rng" where
  "random_interval g i = (case g of [] \<Rightarrow> (0, []) | d # g' \<Rightarrow> (d mod (i + 1), g'))"

definition shuffle_step :: "nat \<Rightarrow> 'a list \<times> rng \<Rightarrow> 'a list \<times> rng" where
  "shuffle_step i s =
     (let j = fst (random_interval (snd s) i); a = fst s
      in (a[i := a ! j, j := a ! i], snd (random_interval (snd s) i)))"

definition np_random_shuffle :: "'a list \<Rightarrow> rng \<Rightarrow> 'a list \<times> rng" where
  "np_random_shuffle a g = fold shuffle_step (rev [1..<length a]) (a, g)"

subsection \<open>The loader object and the shard files\<close>

record loader =
  filename :: string
  floor_photo_ch :: int
  floor_photo_size :: int
  num_parts :: int
  parts_id :: "(int, int \<times> int) dict"
  parts_project_id :: "(int, int list) dict"
  photo_files_x :: "string list"
  photo_files_y :: "string list"
  rect_image_ch :: int
  rect_image_size :: int

text \<open>
  The \<^verbatim>\<open>data\<close> arrays of the shard files: one file of rect images per stream (all
  parts), and one file of floor photos per stream and part.
\<close>

record 'f shards =
  rect_images_x :: "'f image list"
  rect_images_y :: "'f image list"
  floor_photo_images_x :: "'f image list list"
  floor_photo_images_y :: "'f image list list"

record id_table =
  id_image :: "int list"
  id_rect :: "int list"
  id_project :: "int list"
  id_mutator :: "int list"

subsection \<open>Normalising one rect image\<close>

text \<open>
  The body of the loop over the rect images, up to the two assertions on the pixel
  range: the shape and channel checks, the cast to \<^verbatim>\<open>uint8\<close>, the resampling and the
  replication of the channel.
\<close>

definition prepare_rect :: "'f pixel_ops \<Rightarrow> loader \<Rightarrow> 'f image \<Rightarrow> error + u8image" where
  "prepare_rect ops self fri =
     bind_err (py_index (img_shape fri) 0) (\<lambda>s0.
     bind_err (py_index (img_shape fri) 1) (\<lambda>s1.
     bind_err (py_assert (s0 = s1 \<and> int s0 = rect_image_size self) []) (\<lambda>_.
     bind_err
       (if length (img_shape fri) = 2 then py_assert (rect_image_ch self = 1) []
        else bind_err (py_index (img_shape fri) 2) (\<lambda>s2.
               py_assert (int s2 = rect_image_ch self) [])) (\<lambda>_.
     (let fri1 = (case fri of ImgU8 sh px \<Rightarrow> (sh, px)
                  | ImgOther sh v \<Rightarrow> (sh, astype_uint8 ops v));
          fri2 = (if rect_image_size self \<noteq> floor_photo_size self
                  then cv2_resize ops (floor_photo_size self) fri1 else fri1)
      in if rect_image_ch self \<noteq> floor_photo_ch self
         then np_stack_last (floor_photo_ch self) fri2 else Inr fri2)))))"

text \<open>
  The rest of the body: the minimum must be 0 and the maximum at most 1, then the image
  is multiplied by 255. The messages are the source's templates, without the position,
  the part and the value they print.
\<close>

definition rescale_rect :: "u8image \<Rightarrow> error + u8image" where
  "rescale_rect fri =
     bind_err (np_min fri) (\<lambda>mn.
     bind_err (py_assert (mn = 0) ''Invalid rect image min value, it must be 0'') (\<lambda>_.
     bind_err (np_max fri) (\<lambda>mx.
     bind_err (py_assert (mx \<le> 1) ''Invalid rect image max value, it must be 1'') (\<lambda>_.
       Inr (np_multiply_255 fri)))))"

definition load_rect :: "'f pixel_ops \<Rightarrow> loader \<Rightarrow> 'f image list \<Rightarrow> int \<Rightarrow> error + u8image" where
  "load_rect ops self fr i =
     bind_err (py_index fr i) (\<lambda>fri. bind_err (prepare_rect ops self fri) rescale_rect)"

text \<open>The checks on one floor photo.\<close>

definition check_floor_photo :: "loader \<Rightarrow> 'f image \<Rightarrow> error + unit" where
  "check_floor_photo self fpi =
     (let si = img_shape fpi in
      bind_err (py_index si 0) (\<lambda>s0.
      bind_err (py_index si 1) (\<lambda>s1.
      bind_err (py_assert (s0 = s1) ''Floor photo must be square'') (\<lambda>_.
      bind_err (py_assert (int s0 = floor_photo_size self)
                  ''Floor photo image size must be equal than constructor'') (\<lambda>_.
      if length si = 2 then py_assert (floor_photo_ch self = 1) []
      else bind_err (py_index si 2) (\<lambda>s2.
             py_assert (int s2 = floor_photo_ch self)
               ''Invalid number of channels of floor x photo''))))))"

subsection \<open>The ID table\<close>

text \<open>
  One iteration of the loop of \<^verbatim>\<open>_load_id\<close> on the record \<open>line\<close>: the image id,
  the rect id (-1 for the null marker), the project id and the mutator id.
\<close>

definition id_row :: "string \<Rightarrow> error + (int \<times> int \<times> int \<times> int)" where
  "id_row line =
     bind_err (bind_err (py_index (py_split '','' line) 0) py_int) (\<lambda>image_id.
     bind_err (id_fields line) (\<lambda>k.
     bind_err (py_index k 0) (\<lambda>k0.
       if py_strip k0 = ''[NULL]'' then
         bind_err (bind_err (py_index k 2) py_int) (\<lambda>p.
         bind_err (bind_err (py_index k 3) py_int) (\<lambda>m.
           Inr (image_id, - 1, p, m)))
       else
         bind_err (bind_err (py_index k 0) py_int) (\<lambda>r.
         bind_err (bind_err (py_index k 1) py_int) (\<lambda>p.
         bind_err (bind_err (py_index k 2) py_int) (\<lambda>m.
           Inr (image_id, r, p, m)))))))"

definition load_id_rows ::
  "loader \<Rightarrow> int \<Rightarrow> string list \<Rightarrow> error + (int \<times> int \<times> int \<times> int) list" where
  "load_id_rows self part n =
     bind_err (dict_get (parts_id self) part) (\<lambda>r.
       map_err (\<lambda>j. bind_err (py_index n j) id_row) (py_range (fst r) (snd r + 1)))"

text \<open>
  The four columns. The ids stay the integers that were parsed: \<^verbatim>\<open>np.array\<close> keeps
  them as 64-bit integers as long as they are below \<open>2 ^ 63\<close>, which the ids of a
  manifest are; beyond it NumPy changes the element type, which is not modelled.
\<close>

definition load_id :: "loader \<Rightarrow> int \<Rightarrow> string list \<Rightarrow> error + id_table" where
  "load_id self part n =
     bind_err (load_id_rows self part n) (\<lambda>rows.
       Inr \<lparr>id_image = map fst rows,
            id_rect = map (\<lambda>r. fst (snd r)) rows,
            id_project = map (\<lambda>r. fst (snd (snd r))) rows,
            id_mutator = map (\<lambda>r. snd (snd (snd r))) rows\<rparr>)"

subsection \<open>Loading one part of one stream\<close>

text \<open>The arrays that are filtered and shuffled together: rect images, floor photos, IDs.\<close>

type_synonym 'f rows = "u8image list \<times> 'f image list \<times> id_table"

text \<open>The branch \<^verbatim>\<open>if remove_null\<close>: the rows and the number of rows removed.\<close>

definition remove_null_rows :: "'f rows \<Rightarrow> error + ('f rows \<times> int)" where
  "remove_null_rows d =
     (let npr = fst d; fp = fst (snd d); nid = snd (snd d);
          rem_id = np_where_eq (id_rect nid) (- 1);
          total_removed = int (length rem_id)
      in if total_removed > 0 then
           bind_err (np_delete npr rem_id) (\<lambda>npr'.
           bind_err (np_delete fp rem_id) (\<lambda>fp'.
           bind_err (np_delete (id_image nid) rem_id) (\<lambda>im.
           bind_err (np_delete (id_rect nid) rem_id) (\<lambda>re.
           bind_err (np_delete (id_project nid) rem_id) (\<lambda>pr.
           bind_err (np_delete (id_mutator nid) rem_id) (\<lambda>mu.
             Inr ((npr', fp',
                   \<lparr>id_image = im, id_rect = re, id_project = pr, id_mutator = mu\<rparr>),
                  total_removed)))))))
         else Inr (d, total_removed))"

text \<open>The branch \<^verbatim>\<open>if shuffle\<close>: one shuffled \<^verbatim>\<open>np.arange\<close> indexes every array.\<close>

definition shuffle_rows :: "'f rows \<Rightarrow> rng \<Rightarrow> error + ('f rows \<times> rng)" where
  "shuffle_rows d g =
     (let npr = fst d; fp = fst (snd d); nid = snd (snd d);
          sh = np_random_shuffle [0..<length npr] g;
          indices = fst sh
      in bind_err (np_take npr indices) (\<lambda>npr'.
         bind_err (np_take fp indices) (\<lambda>fp'.
         bind_err (np_take (id_image nid) indices) (\<lambda>im.
         bind_err (np_take (id_rect nid) indices) (\<lambda>re.
         bind_err (np_take (id_project nid) indices) (\<lambda>pr.
         bind_err (np_take (id_mutator nid) indices) (\<lambda>mu.
           Inr ((npr', fp',
                 \<lparr>id_image = im, id_rect = re, id_project = pr, id_mutator = mu\<rparr>),
                snd sh))))))))"

text \<open>
  \<^verbatim>\<open>_load_data_part\<close> up to the ID table: the rect images of the part, its floor
  photos and its IDs, before any row is removed or moved.
\<close>

definition load_rows ::
  "'f pixel_ops \<Rightarrow> loader \<Rightarrow> 'f shards \<Rightarrow> int \<Rightarrow> string \<Rightarrow> error + 'f rows" where
  "load_rows ops self disk part xy =
     bind_err (if xy = ''x'' then Inr (rect_images_x disk)
               else if xy = ''y'' then Inr (rect_images_y disk)
               else Inl ValueError) (\<lambda>fr.
     bind_err (dict_get (parts_id self) part) (\<lambda>rg.
     bind_err (map_err (load_rect ops self fr) (py_range (fst rg) (snd rg + 1))) (\<lambda>r.
     bind_err (if xy = ''x'' then py_index (floor_photo_images_x disk) (part - 1)
               else if xy = ''y'' then py_index (floor_photo_images_y disk) (part - 1)
               else Inl ValueError) (\<lambda>fp.
     bind_err (py_assert (length fp = length r)
                 ''Floor photo size is different than rect image size'') (\<lambda>_.
     bind_err (for_each (check_floor_photo self) fp) (\<lambda>_.
     bind_err (if xy = ''x'' then load_id self part (photo_files_x self)
               else if xy = ''y'' then load_id self part (photo_files_y self)
               else Inl ValueError) (\<lambda>nid.
       Inr (r, fp, nid))))))))"

text \<open>\<^verbatim>\<open>_load_data_part\<close>: the rows, the number of removed rows, and the generator.\<close>

definition load_data_part ::
  "'f pixel_ops \<Rightarrow> loader \<Rightarrow> 'f shards \<Rightarrow> int \<Rightarrow> string \<Rightarrow> bool \<Rightarrow> bool \<Rightarrow> rng \<Rightarrow>
     error + (('f rows \<times> int) \<times> rng)" where
  "load_data_part ops self disk part xy remove_null shuffle g =
     bind_err (load_rows ops self disk part xy) (\<lambda>d.
     bind_err (if remove_null then remove_null_rows d else Inr (d, 0)) (\<lambda>f.
       if shuffle then
         bind_err (shuffle_rows (fst f) g) (\<lambda>s. Inr ((fst s, snd f), snd s))
       else Inr (f, g)))"

subsection \<open>\<^verbatim>\<open>load_part\<close>\<close>

text \<open>
  The entries of the returned dictionary for one stream (\<^verbatim>\<open>x_len\<close>, \<^verbatim>\<open>x_removed\<close>,
  \<^verbatim>\<open>x_rect\<close>, \<^verbatim>\<open>x_fphoto\<close>, \<^verbatim>\<open>x_id\<close>), and the dictionary: the entries of a
  stream are there when the stream was asked for. The entry \<^verbatim>\<open>size_mb\<close> (a size in
  memory, a float) is left out, as are the garbage collection and the pause.
\<close>

record 'f stream_out =
  s_len :: nat
  s_removed :: int
  s_rect :: "u8image list"
  s_fphoto :: "'f image list"
  s_id :: id_table

record 'f part_data =
  out_x :: "'f stream_out option"
  out_y :: "'f stream_out option"
  out_part :: int
  out_xy :: string

definition stream_entries :: "'f rows \<times> int \<Rightarrow> 'f stream_out" where
  "stream_entries f =
     \<lparr>s_len = length (fst (snd (fst f))), s_removed = snd f, s_rect = fst (fst f),
      s_fphoto = fst (snd (fst f)), s_id = snd (snd (fst f))\<rparr>"

definition load_part ::
  "'f pixel_ops \<Rightarrow> loader \<Rightarrow> 'f shards \<Rightarrow> int \<Rightarrow> string \<Rightarrow> bool \<Rightarrow> bool \<Rightarrow> rng \<Rightarrow>
     error + ('f part_data \<times> rng)" where
  "load_part ops self disk part xy remove_null shuffle g =
     bind_err (py_assert (1 \<le> part \<and> part \<le> num_parts self)
                 ''Number of parts overflow'') (\<lambda>_.
     bind_err (py_assert (xy \<in> set [''x'', ''y'', ''xy''])
                 ''Invalid xy, expected x, y or xy'') (\<lambda>_.
     bind_err (if xy = ''x'' \<or> xy = ''xy'' then
                 bind_err (load_data_part ops self disk part ''x'' remove_null shuffle g)
                   (\<lambda>r. Inr (Some (stream_entries (fst r)), snd r))
               else Inr (None, g)) (\<lambda>x.
     bind_err (if xy = ''y'' \<or> xy = ''xy'' then
                 bind_err (load_data_part ops self disk part ''y'' remove_null shuffle (snd x))
                   (\<lambda>r. Inr (Some (stream_entries (fst r)), snd r))
               else Inr (None, snd x)) (\<lambda>y.
       Inr (\<lparr>out_x = fst x, out_y = fst y, out_part = part, out_xy = xy\<rparr>, snd y)))))"

text \<open>
  The rows as tuples, position by position: the rect image, the floor photo, and the
  image, rect, project and mutator ids that stand at the same position.
\<close>

definition row_list ::
  "'f rows \<Rightarrow> (u8image \<times> 'f image \<times> int \<times> int \<times> int \<times> int) list" where
  "row_list d =
     zip (fst d) (zip (fst (snd d)) (zip (id_image (snd (snd d))) (zip (id_rect (snd (snd d)))
       (zip (id_project (snd (snd d))) (id_mutator (snd (snd d)))))))"

definition stream_rows :: "'f stream_out \<Rightarrow> 'f rows" where
  "stream_rows s = (s_rect s, s_fphoto s, s_id s)"

text \<open>
  Rows whose six arrays have one length, and the rows at the positions \<open>js\<close>, in that
  order: both the filter and the shuffle select rows this way.
\<close>

definition aligned :: "'f rows \<Rightarrow> bool" where
  "aligned d \<longleftrightarrow>
     length (fst (snd d)) = length (fst d) \<and>
     length (id_image (snd (snd d))) = length (fst d) \<and>
     length (id_rect (snd (snd d))) = length (fst d) \<and>
     length (id_project (snd (snd d))) = length (fst d) \<and>
     length (id_mutator (snd (snd d))) = length (fst d)"

definition select_rows :: "'f rows \<Rightarrow> nat list \<Rightarrow> 'f rows" where
  "select_rows d js =
     (map ((!) (fst d)) js, map ((!) (fst (snd d))) js,
      \<lparr>id_image = map ((!) (id_image (snd (snd d)))) js,
       id_rect = map ((!) (id_rect (snd (snd d)))) js,
       id_project = map ((!) (id_project (snd (snd d)))) js,
       id_mutator = map ((!) (id_mutator (snd (snd d)))) js\<rparr>)"

text \<open>The positions whose rect id is not the null sentinel, ascending.\<close>

definition keep_rows :: "'f rows \<Rightarrow> nat list" where
  "keep_rows d = filter (\<lambda>j. id_rect (snd (snd d)) ! j \<noteq> - 1) [0..<length (fst d)]"

text \<open>
  Two results for one stream that hold the same rows, in whatever order, with the same
  length and the same number of removed rows.
\<close>

definition same_rows :: "'f stream_out \<Rightarrow> 'f stream_out \<Rightarrow> bool" where
  "same_rows s t \<longleftrightarrow>
     mset (row_list (stream_rows s)) = mset (row_list (stream_rows t)) \<and>
     s_len s = s_len t \<and> s_removed s = s_removed t"

section \<open>Structural equality and the session file\<close>

subsection \<open>Python values in the dictionaries that are compared\<close>

text \<open>
  The keys are integers or strings. The values are integers, strings, lists and tuples
  (other types do not occur in the part ranges, the project lists and their JSON copies).
  On these values Python's \<^verbatim>\<open>==\<close> is equality of the terms: a list is never equal to a
  tuple, an integer never to a string.
\<close>

datatype pykey = KInt int | KStr string

datatype pyval = VInt int | VStr string | VList "pyval list" | VTuple "pyval list"

datatype pytype = TInt | TStr | TList | TTuple

fun py_type :: "pyval \<Rightarrow> pytype" where
  "py_type (VInt _) = TInt"
| "py_type (VStr _) = TStr"
| "py_type (VList _) = TList"
| "py_type (VTuple _) = TTuple"

text \<open>\<^verbatim>\<open>isinstance(v, (list, tuple))\<close>, and the elements of such a value.\<close>

fun is_seq :: "pyval \<Rightarrow> bool" where
  "is_seq (VList _) = True"
| "is_seq (VTuple _) = True"
| "is_seq _ = False"

fun items :: "pyval \<Rightarrow> pyval list" where
  "items (VList xs) = xs"
| "items (VTuple xs) = xs"
| "items _ = []"

text \<open>\<^verbatim>\<open>str\<close> of an integer: its decimal digits, after a minus sign when it is negative.\<close>

definition digit_char :: "nat \<Rightarrow> char" where
  "digit_char d = char_of (48 + d)"

fun digits_of :: "nat \<Rightarrow> string" where
  "digits_of n = (if n < 10 then [digit_char n] else digits_of (n div 10) @ [digit_char (n mod 10)])"

declare digits_of.simps [simp del]

definition str_int :: "int \<Rightarrow> string" where
  "str_int i = (if i < 0 then CHR ''-'' # digits_of (nat (- i)) else digits_of (nat i))"

fun py_str :: "pykey \<Rightarrow> string" where
  "py_str (KInt i) = str_int i"
| "py_str (KStr s) = s"

subsection \<open>\<^verbatim>\<open>_is_dict_equal\<close>\<close>

text \<open>A loop whose body can return \<^verbatim>\<open>False\<close> from the function, or raise.\<close>

fun all_err :: "('a \<Rightarrow> error + bool) \<Rightarrow> 'a list \<Rightarrow> error + bool" where
  "all_err f [] = Inr True"
| "all_err f (x # xs) =
     (case f x of Inl e \<Rightarrow> Inl e | Inr b \<Rightarrow> if b then all_err f xs else Inr False)"

text \<open>
  One iteration of \<^verbatim>\<open>for i in range(len(kx))\<close>: \<^verbatim>\<open>Inr False\<close> is a
  \<^verbatim>\<open>return False\<close>, \<^verbatim>\<open>Inr True\<close> goes on with the loop.
\<close>

definition dict_entry_equal ::
  "(pykey, pyval) dict \<Rightarrow> (pykey, pyval) dict \<Rightarrow> pykey list \<Rightarrow> pykey list \<Rightarrow> nat \<Rightarrow>
     error + bool" where
  "dict_entry_equal x y kx ky i =
     bind_err (py_index kx (int i)) (\<lambda>kxi.
     bind_err (py_index ky (int i)) (\<lambda>kyi.
       if py_str kxi \<noteq> py_str kyi then Inr False
       else
         bind_err (dict_get x kxi) (\<lambda>xki.
         bind_err (dict_get y kyi) (\<lambda>yki.
           if is_seq xki then
             bind_err (py_assert (is_seq yki) []) (\<lambda>_.
               if length (items xki) \<noteq> length (items yki) then Inr False
               else Inr (list_all (\<lambda>j. items xki ! j = items yki ! j)
                           [0..<length (items xki)]))
           else if py_type xki \<noteq> py_type yki then Inr False
           else Inr (xki = yki)))))"

definition is_dict_equal :: "(pykey, pyval) dict \<Rightarrow> (pykey, pyval) dict \<Rightarrow> error + bool" where
  "is_dict_equal x y =
     (let kx = map fst x; ky = map fst y
      in if length kx \<noteq> length ky then Inr False
         else all_err (dict_entry_equal x y kx ky) [0..<length kx])"

subsection \<open>The part ranges and project lists as Python values, and their JSON copies\<close>

definition py_parts_id :: "(int, int \<times> int) dict \<Rightarrow> (pykey, pyval) dict" where
  "py_parts_id d = map (\<lambda>e. (KInt (fst e), VTuple [VInt (fst (snd e)), VInt (snd (snd e))])) d"

definition py_parts_project_id :: "(int, int list) dict \<Rightarrow> (pykey, pyval) dict" where
  "py_parts_project_id d = map (\<lambda>e. (KInt (fst e), VList (map VInt (snd e)))) d"



subsection \<open>The hashes of the shard files\<close>

text \<open>
  Modelled from the spec: \<^verbatim>\<open>file_md5\<close> of \<^verbatim>\<open>MLStructFP_benchmarks.ml.utils\<close> is not
  among the sources; the spec has it as the digest of one file, which the family hash
  chains. It is the parameter \<open>file_md5\<close>, from the content of a file to the digest string.
  The other parameter is \<^verbatim>\<open>hashlib.md5\<close>: the hexadecimal digest of all the bytes that
  the \<^verbatim>\<open>update\<close> calls were given, in their order.
\<close>

record digests =
  file_md5 :: "string \<Rightarrow> string"
  md5_hexdigest :: "string \<Rightarrow> string"

text \<open>
  The contents of the shard files: the two files of rect images, and the floor photo
  files of both streams, listed by part.
\<close>

record shard_bytes =
  bytes_rect_images_x :: string
  bytes_rect_images_y :: string
  bytes_floor_photo_images_x :: "string list"
  bytes_floor_photo_images_y :: "string list"

text \<open>The bytes that \<^verbatim>\<open>_get_file_hash\<close> gives to \<^verbatim>\<open>h.update\<close>, one call after the other.\<close>

definition hash_input :: "digests \<Rightarrow> loader \<Rightarrow> shard_bytes \<Rightarrow> string \<Rightarrow> error + string" where
  "hash_input dg self files xy =
     (if xy = ''rect'' then
        Inr (file_md5 dg (bytes_rect_images_x files) @ file_md5 dg (bytes_rect_images_y files))
      else if xy = ''fphoto'' then
        bind_err
          (map_err (\<lambda>i.
             bind_err (py_index (bytes_floor_photo_images_x files) i) (\<lambda>a.
             bind_err (py_index (bytes_floor_photo_images_y files) i) (\<lambda>b.
               Inr (file_md5 dg a @ file_md5 dg b))))
             (py_range 0 (num_parts self)))
          (\<lambda>ps. Inr (concat ps))
      else Inl ValueError)"

definition get_file_hash :: "digests \<Rightarrow> loader \<Rightarrow> shard_bytes \<Rightarrow> string \<Rightarrow> error + string" where
  "get_file_hash dg self files xy =
     bind_err (hash_input dg self files xy) (\<lambda>s. Inr (md5_hexdigest dg s))"

subsection \<open>\<^verbatim>\<open>save_session\<close> and \<^verbatim>\<open>load_session\<close>\<close>

definition SESSION_EXPORT_VERSION :: string where
  "SESSION_EXPORT_VERSION = ''1.1''"

text \<open>
  The record of a session file as \<^verbatim>\<open>json.load\<close> returns it. The name of the file
  (both functions derive it from their argument in the same way) and the entry
  \<^verbatim>\<open>_loaded_session\<close> of the loader are not modelled.
\<close>

record session =
  version :: string
  class_name :: string
  date_save :: string
  description :: string
  sess_filename :: string
  sess_floor_photo_ch :: int
  sess_floor_photo_size :: int
  sess_num_parts :: int
  sess_parts_id :: "(pykey, pyval) dict"
  sess_parts_project_id :: "(pykey, pyval) dict"
  sess_rect_image_ch :: int
  sess_rect_image_size :: int
  hash_rect_images :: string
  hash_floor_images :: string


definition load_session :: "digests \<Rightarrow> loader \<Rightarrow> shard_bytes \<Rightarrow> session \<Rightarrow> error + unit" where
  "load_session dg self files data =
     bind_err (py_assert (version data = SESSION_EXPORT_VERSION)
                 ''Outdated session export version'') (\<lambda>_.
     bind_err (py_assert (class_name data = ''DataFloorPhotoXY'')
                 ''Data class is not valid'') (\<lambda>_.
     bind_err (get_file_hash dg self files ''rect'') (\<lambda>hr.
     bind_err (py_assert (hr = hash_rect_images data)
                 ''Rect image hash is not the same'') (\<lambda>_.
     bind_err (get_file_hash dg self files ''fphoto'') (\<lambda>hf.
     bind_err (py_assert (hf = hash_floor_images data)
                 ''Floor image hash is not the same'') (\<lambda>_.
     bind_err (is_dict_equal (py_parts_id (parts_id self)) (sess_parts_id data)) (\<lambda>eq_id.
     bind_err (py_assert eq_id ''ID partition changed'') (\<lambda>_.
     bind_err (is_dict_equal (py_parts_project_id (parts_project_id self))
                 (sess_parts_project_id data)) (\<lambda>eq_prj.
     bind_err (py_assert eq_prj ''Project ID partition changed'') (\<lambda>_.
     bind_err (py_assert (sess_rect_image_size data = rect_image_size self)
                 ''Rect image size changed'') (\<lambda>_.
     py_assert (sess_floor_photo_size data = floor_photo_size self)
       ''Floor image size changed'')))))))))))"

subsection \<open>One shard file\<close>

text \<open>
  The shard files that the two hashes cover, by name: the rect image file of a stream,
  or the floor photo file of a stream at a position of the list of parts (part
  \<open>i + 1\<close>). \<open>family\<close> is the argument of \<^verbatim>\<open>_get_file_hash\<close> that covers the file.
\<close>

datatype shard_file = RectX | RectY | FloorPhotoX nat | FloorPhotoY nat

fun family :: "shard_file \<Rightarrow> string" where
  "family RectX = ''rect''"
| "family RectY = ''rect''"
| "family (FloorPhotoX _) = ''fphoto''"
| "family (FloorPhotoY _) = ''fphoto''"

fun hashed :: "loader \<Rightarrow> shard_file \<Rightarrow> bool" where
  "hashed self RectX = True"
| "hashed self RectY = True"
| "hashed self (FloorPhotoX i) = (int i < num_parts self)"
| "hashed self (FloorPhotoY i) = (int i < num_parts self)"

fun file_content :: "shard_bytes \<Rightarrow> shard_file \<Rightarrow> string" where
  "file_content files RectX = bytes_rect_images_x files"
| "file_content files RectY = bytes_rect_images_y files"
| "file_content files (FloorPhotoX i) = bytes_floor_photo_images_x files ! i"
| "file_content files (FloorPhotoY i) = bytes_floor_photo_images_y files ! i"

fun write_file :: "shard_bytes \<Rightarrow> shard_file \<Rightarrow> string \<Rightarrow> shard_bytes" where
  "write_file files RectX c = files\<lparr>bytes_rect_images_x := c\<rparr>"
| "write_file files RectY c = files\<lparr>bytes_rect_images_y := c\<rparr>"
| "write_file files (FloorPhotoX i) c =
     files\<lparr>bytes_floor_photo_images_x := (bytes_floor_photo_images_x files)[i := c]\<rparr>"
| "write_file files (FloorPhotoY i) c =
     files\<lparr>bytes_floor_photo_images_y := (bytes_floor_photo_images_y files)[i := c]\<rparr>"

definition hash_message :: "shard_file \<Rightarrow> string" where
  "hash_message f =
     (if family f = ''rect'' then ''Rect image hash is not the same''
      else ''Floor image hash is not the same'')"

section \<open>Example data\<close>

text \<open>
  A manifest of three parts with two records each; the records at positions 1 and 4 carry
  the null marker in the rect-id field (and one field more).
\<close>

definition ex_manifest :: "string list" where
  "ex_manifest = [''ID,File'', ''0,7-1-1-part1'', ''1,[NULL]-0-1-2-part1'', ''2,9-2-1-part2'',
     ''3,8-2-2-part2'', ''4,[NULL]-0-3-1-part3'', ''5,4-3-1-part3'']"

definition ex_parts_id :: "(int, int \<times> int) dict" where
  "ex_parts_id = [(1, 0, 1), (2, 2, 3), (3, 4, 5)]"

definition ex_parts_project_id :: "(int, int list) dict" where
  "ex_parts_project_id = [(1, [1]), (2, [2]), (3, [3])]"

text \<open>A manifest whose last part holds a single record.\<close>

definition short_last_part_manifest :: "string list" where
  "short_last_part_manifest =
     [''ID,File'', ''0,1-1-1-part1'', ''1,2-1-1-part1'', ''2,3-1-1-part2'']"

text \<open>
  A loader over \<^const>\<open>ex_manifest\<close> for both streams, with rect images and floor photos
  of one pixel and two channels. The pixel operations are those of arrays that are
  \<^verbatim>\<open>uint8\<close> already (no value of another dtype) and a resize that returns its input.
\<close>

definition ex_ops :: "unit pixel_ops" where
  "ex_ops = \<lparr>astype_uint8 = (\<lambda>_. []), cv2_resize = (\<lambda>_ fri. fri)\<rparr>"

definition ex_loader :: loader where
  "ex_loader =
     \<lparr>filename = ''data'', floor_photo_ch = 2, floor_photo_size = 1, num_parts = 3, parts_id = ex_parts_id,
      parts_project_id = ex_parts_project_id, photo_files_x = tl ex_manifest,
      photo_files_y = tl ex_manifest, rect_image_ch = 2, rect_image_size = 1\<rparr>"

definition ex_shards :: "unit shards" where
  "ex_shards =
     \<lparr>rect_images_x = concat (replicate 3 [ImgU8 [1, 1, 2] [0, 1], ImgU8 [1, 1, 2] [1, 0]]),
      rect_images_y = concat (replicate 3 [ImgU8 [1, 1, 2] [1, 0], ImgU8 [1, 1, 2] [0, 1]]),
      floor_photo_images_x =
        [[ImgU8 [1, 1, 2] [10, 10], ImgU8 [1, 1, 2] [11, 11]], [ImgU8 [1, 1, 2] [12, 12], ImgU8 [1, 1, 2] [13, 13]],
         [ImgU8 [1, 1, 2] [14, 14], ImgU8 [1, 1, 2] [15, 15]]],
      floor_photo_images_y =
        [[ImgU8 [1, 1, 2] [20, 20], ImgU8 [1, 1, 2] [21, 21]], [ImgU8 [1, 1, 2] [22, 22], ImgU8 [1, 1, 2] [23, 23]],
         [ImgU8 [1, 1, 2] [24, 24], ImgU8 [1, 1, 2] [25, 25]]]\<rparr>"

text \<open>
  Part 2 of both streams, not shuffled, and shuffled by a generator whose next draws are
  0 and 1: the draw 0 swaps the two rows of stream x, the draw 1 leaves stream y as it is.
\<close>

definition ex_part2 :: "unit part_data" where
  "ex_part2 =
     \<lparr>out_x = Some \<lparr>s_len = 2, s_removed = 0,
        s_rect = [([1, 1, 2], [0, 255]), ([1, 1, 2], [255, 0])],
        s_fphoto = [ImgU8 [1, 1, 2] [12, 12], ImgU8 [1, 1, 2] [13, 13]],
        s_id = \<lparr>id_image = [2, 3], id_rect = [9, 8], id_project = [2, 2],
                 id_mutator = [1, 2]\<rparr>\<rparr>,
      out_y = Some \<lparr>s_len = 2, s_removed = 0,
        s_rect = [([1, 1, 2], [255, 0]), ([1, 1, 2], [0, 255])],
        s_fphoto = [ImgU8 [1, 1, 2] [22, 22], ImgU8 [1, 1, 2] [23, 23]],
        s_id = \<lparr>id_image = [2, 3], id_rect = [9, 8], id_project = [2, 2],
                 id_mutator = [1, 2]\<rparr>\<rparr>,
      out_part = 2, out_xy = ''xy''\<rparr>"

definition ex_part2_shuffled :: "unit part_data" where
  "ex_part2_shuffled =
     \<lparr>out_x = Some \<lparr>s_len = 2, s_removed = 0,
        s_rect = [([1, 1, 2], [255, 0]), ([1, 1, 2], [0, 255])],
        s_fphoto = [ImgU8 [1, 1, 2] [13, 13], ImgU8 [1, 1, 2] [12, 12]],
        s_id = \<lparr>id_image = [3, 2], id_rect = [8, 9], id_project = [2, 2],
                 id_mutator = [2, 1]\<rparr>\<rparr>,
      out_y = Some \<lparr>s_len = 2, s_removed = 0,
        s_rect = [([1, 1, 2], [255, 0]), ([1, 1, 2], [0, 255])],
        s_fphoto = [ImgU8 [1, 1, 2] [22, 22], ImgU8 [1, 1, 2] [23, 23]],
        s_id = \<lparr>id_image = [2, 3], id_rect = [9, 8], id_project = [2, 2],
                 id_mutator = [1, 2]\<rparr>\<rparr>,
      out_part = 2, out_xy = ''xy''\<rparr>"

text \<open>Part 1 of stream x without its null row (the record at position 1).\<close>

definition ex_part1_filtered :: "unit part_data" where
  "ex_part1_filtered =
     \<lparr>out_x = Some \<lparr>s_len = 1, s_removed = 1, s_rect = [([1, 1, 2], [0, 255])],
        s_fphoto = [ImgU8 [1, 1, 2] [10, 10]],
        s_id = \<lparr>id_image = [0], id_rect = [7], id_project = [1], id_mutator = [1]\<rparr>\<rparr>,
      out_y = None, out_part = 1, out_xy = ''x''\<rparr>"

text \<open>Part 2 of stream x alone, as the files have it and with its two rows swapped.\<close>

definition ex_part2x :: "unit part_data" where
  "ex_part2x = ex_part2\<lparr>out_y := None, out_xy := ''x''\<rparr>"

definition ex_part2x_swapped :: "unit part_data" where
  "ex_part2x_swapped = ex_part2_shuffled\<lparr>out_y := None, out_xy := ''x''\<rparr>"

text \<open>
  The same shards, but the rect image of stream x at position 3 has the pixels 1 and 1:
  its minimum is not 0.
\<close>

definition ex_shards_bad :: "unit shards" where
  "ex_shards_bad =
     ex_shards\<lparr>rect_images_x := (rect_images_x ex_shards)[3 := ImgU8 [1, 1, 2] [1, 1]]\<rparr>"

text \<open>The rows of part 2 of stream x.\<close>

definition ex_rows2x :: "unit rows" where
  "ex_rows2x =
     ([([1, 1, 2], [0, 255]), ([1, 1, 2], [255, 0])],
      [ImgU8 [1, 1, 2] [12, 12], ImgU8 [1, 1, 2] [13, 13]],
      \<lparr>id_image = [2, 3], id_rect = [9, 8], id_project = [2, 2], id_mutator = [1, 2]\<rparr>)"

text \<open>
  A record with the null marker in its fourth field, not in the rect-id field, and a
  manifest that holds it.
\<close>

definition stray_marker_line :: string where
  "stray_marker_line = ''1,12-7-3-[NULL]-part1''"

definition stray_marker_manifest :: "string list" where
  "stray_marker_manifest =
     [''ID,File'', ''0,7-1-1-part1'', stray_marker_line, ''2,9-2-1-part2'', ''3,8-2-2-part2'']"



text \<open>
  A manifest of two parts whose second record has the global id 99 at position 1, a
  loader over it as the constructor builds it, and shards for it.
\<close>

definition gap_id_manifest :: "string list" where
  "gap_id_manifest =
     [''ID,File'', ''0,7-1-1-part1'', ''99,5-1-1-part1'', ''2,6-1-1-part1'', ''3,9-2-1-part2'',
      ''4,8-2-2-part2'']"

definition gap_id_loader :: loader where
  "gap_id_loader =
     \<lparr>filename = ''data'', floor_photo_ch = 2, floor_photo_size = 1, num_parts = 2,
      parts_id = [(1, 0, 2), (2, 3, 4)], parts_project_id = [(1, [1]), (2, [2])],
      photo_files_x = tl gap_id_manifest, photo_files_y = tl gap_id_manifest,
      rect_image_ch = 2, rect_image_size = 1\<rparr>"

definition gap_id_shards :: "unit shards" where
  "gap_id_shards =
     \<lparr>rect_images_x =
        [ImgU8 [1, 1, 2] [0, 1], ImgU8 [1, 1, 2] [1, 0], ImgU8 [1, 1, 2] [0, 0],
         ImgU8 [1, 1, 2] [0, 1], ImgU8 [1, 1, 2] [1, 0]],
      rect_images_y =
        [ImgU8 [1, 1, 2] [0, 1], ImgU8 [1, 1, 2] [1, 0], ImgU8 [1, 1, 2] [0, 0],
         ImgU8 [1, 1, 2] [0, 1], ImgU8 [1, 1, 2] [1, 0]],
      floor_photo_images_x =
        [[ImgU8 [1, 1, 2] [10, 10], ImgU8 [1, 1, 2] [11, 11], ImgU8 [1, 1, 2] [12, 12]],
         [ImgU8 [1, 1, 2] [13, 13], ImgU8 [1, 1, 2] [14, 14]]],
      floor_photo_images_y =
        [[ImgU8 [1, 1, 2] [20, 20], ImgU8 [1, 1, 2] [21, 21], ImgU8 [1, 1, 2] [22, 22]],
         [ImgU8 [1, 1, 2] [23, 23], ImgU8 [1, 1, 2] [24, 24]]]\<rparr>"

text \<open>The rows of its two parts in stream x.\<close>

definition gap_id_rows1 :: "unit rows" where
  "gap_id_rows1 =
     ([([1, 1, 2], [0, 255]), ([1, 1, 2], [255, 0]), ([1, 1, 2], [0, 0])],
      [ImgU8 [1, 1, 2] [10, 10], ImgU8 [1, 1, 2] [11, 11], ImgU8 [1, 1, 2] [12, 12]],
      \<lparr>id_image = [0, 99, 2], id_rect = [7, 5, 6], id_project = [1, 1, 1],
         id_mutator = [1, 1, 1]\<rparr>)"

definition gap_id_rows2 :: "unit rows" where
  "gap_id_rows2 =
     ([([1, 1, 2], [0, 255]), ([1, 1, 2], [255, 0])],
      [ImgU8 [1, 1, 2] [13, 13], ImgU8 [1, 1, 2] [14, 14]],
      \<lparr>id_image = [3, 4], id_rect = [9, 8], id_project = [2, 2], id_mutator = [1, 2]\<rparr>)"


section \<open>Basic facts about the Python primitives\<close>

lemma bind_err_Inr: "bind_err m f = Inr y \<longleftrightarrow> (\<exists>x. m = Inr x \<and> f x = Inr y)"
  by (cases m) (simp_all add: bind_err_def)

lemma bind_err_Inl:
  "bind_err m f = Inl e \<longleftrightarrow> m = Inl e \<or> (\<exists>x. m = Inr x \<and> f x = Inl e)"
  by (cases m) (simp_all add: bind_err_def)

lemma py_assert_Inr: "py_assert b msg = Inr u \<longleftrightarrow> b"
  by (simp add: py_assert_def)

lemma for_each_Inr: "for_each f xs = Inr u \<longleftrightarrow> (\<forall>x \<in> set xs. f x = Inr ())"
  by (induction xs) (auto split: sum.splits)

lemma py_index_nat: "k < length xs \<Longrightarrow> py_index xs (int k) = Inr (xs ! k)"
  by (simp add: py_index_def)

lemma py_index_nat_Suc: "Suc k < length xs \<Longrightarrow> py_index xs (int k + 1) = Inr (xs ! Suc k)"
  using py_index_nat [of "Suc k" xs] by (simp add: add.commute)

lemma dict_get_nth:
  assumes "distinct (map fst d)" and "k < length d"
  shows "dict_get d (fst (d ! k)) = Inr (snd (d ! k))"
proof -
  from assms(2) have "(fst (d ! k), snd (d ! k)) \<in> set d" by simp
  with assms(1) have "map_of d (fst (d ! k)) = Some (snd (d ! k))"
    by (simp only: map_of_eq_Some_iff)
  then show ?thesis by (simp add: dict_get_def)
qed

lemma dict_del_Inr: "dict_del d k = Inr d' \<Longrightarrow> d' = AList.delete k d"
  by (simp add: dict_del_def split: if_splits)

lemma map_err_Cons:
  "map_err f (x # xs) = Inr zs \<longleftrightarrow> (\<exists>y ys. f x = Inr y \<and> map_err f xs = Inr ys \<and> zs = y # ys)"
  by (auto split: sum.splits)

lemma map_err_length: "map_err f xs = Inr ys \<Longrightarrow> length ys = length xs"
  by (induction xs arbitrary: ys) (auto simp: map_err_Cons simp del: map_err.simps(2))

lemma map_err_nth: "map_err f xs = Inr ys \<Longrightarrow> i < length xs \<Longrightarrow> f (xs ! i) = Inr (ys ! i)"
proof (induction xs arbitrary: ys i)
  case Nil
  then show ?case by simp
next
  case (Cons x xs)
  from Cons.prems(1) obtain y ys' where
    y: "f x = Inr y" "map_err f xs = Inr ys'" "ys = y # ys'"
    by (auto simp: map_err_Cons simp del: map_err.simps(2))
  show ?case
  proof (cases i)
    case 0
    then show ?thesis using y by simp
  next
    case (Suc k)
    then show ?thesis using y Cons.IH [OF y(2), of k] Cons.prems(2) by simp
  qed
qed

lemma map_err_Inl_ex: "f x = Inl e \<Longrightarrow> x \<in> set xs \<Longrightarrow> \<exists>e'. map_err f xs = Inl e'"
  by (induction xs) (auto split: sum.splits)

lemma map_err_total: "(\<And>x. x \<in> set xs \<Longrightarrow> f x = Inr (h x)) \<Longrightarrow> map_err f xs = Inr (map h xs)"
  by (induction xs) auto

lemma np_take_select: "\<forall>i \<in> set p. i < length a \<Longrightarrow> np_take a p = Inr (map ((!) a) p)"
  unfolding np_take_def by (rule map_err_total) (simp add: py_index_nat)

lemma zip_upt_conv: "zip a [0..<length a] = map (\<lambda>j. (a ! j, j)) [0..<length a]"
  by (rule nth_equalityI) simp_all

lemma np_delete_select:
  "\<forall>j \<in> set idx. j < length a \<Longrightarrow>
   np_delete a idx = Inr (map ((!) a) (filter (\<lambda>j. j \<notin> set idx) [0..<length a]))"
  by (simp add: np_delete_def zip_upt_conv filter_map comp_def)

lemma shuffle_step_mset:
  "i < length a \<Longrightarrow> mset (fst (shuffle_step i (a, g))) = mset a \<and>
     length (fst (shuffle_step i (a, g))) = length a"
proof -
  assume i: "i < length a"
  have "fst (random_interval g i) \<le> i"
    by (cases g) (simp_all add: random_interval_def)
  with i have j: "fst (random_interval g i) < length a" by simp
  show ?thesis using mset_swap [OF j i] by (simp add: shuffle_step_def Let_def)
qed

lemma fold_shuffle_step_mset:
  "\<forall>i \<in> set js. i < length a \<Longrightarrow>
   mset (fst (fold shuffle_step js (a, g))) = mset a \<and>
   length (fst (fold shuffle_step js (a, g))) = length a"
proof (induction js arbitrary: a g)
  case Nil
  then show ?case by simp
next
  case (Cons i js)
  obtain a' g' where s: "shuffle_step i (a, g) = (a', g')" by (cases "shuffle_step i (a, g)")
  from Cons.prems have "i < length a" by simp
  from shuffle_step_mset [OF this, of g] s have a': "mset a' = mset a" "length a' = length a"
    by simp_all
  with Cons.prems have "\<forall>i \<in> set js. i < length a'" by simp
  from Cons.IH [OF this, of g'] a' s show ?case by simp
qed

lemma np_random_shuffle_mset: "mset (fst (np_random_shuffle a g)) = mset a"
  unfolding np_random_shuffle_def using fold_shuffle_step_mset [of "rev [1..<length a]" a g]
  by simp

lemma np_random_shuffle_upt_set: "set (fst (np_random_shuffle [0..<n] g)) = {0..<n}"
  using np_random_shuffle_mset [of "[0..<n]" g] by (metis mset_eq_setD set_upt)

text \<open>The pieces that \<^const>\<open>py_split\<close> and \<^const>\<open>py_strip\<close> return are parts of the string.\<close>

lemma py_split_nonempty: "py_split sep s \<noteq> []"
  by (induction sep s rule: py_split.induct) (auto split: list.splits)

lemma py_split_hd_prefix: "prefix (hd (py_split sep s)) s"
  by (induction sep s rule: py_split.induct) (auto split: list.splits)

lemma py_split_sublist: "x \<in> set (py_split sep s) \<Longrightarrow> sublist x s"
proof (induction sep s arbitrary: x rule: py_split.induct)
  case (1 sep)
  then show ?case by simp
next
  case (2 sep c cs)
  show ?case
  proof (cases "prefix sep (c # cs)")
    case True
    with "2.prems" have "x = [] \<or> x \<in> set (py_split sep (drop (length sep - 1) cs))" by simp
    then show ?thesis
    proof
      assume "x = []" then show ?thesis by simp
    next
      assume "x \<in> set (py_split sep (drop (length sep - 1) cs))"
      with "2.IH"(1) True have "sublist x (drop (length sep - 1) cs)" by simp
      then have "sublist x cs" by (meson sublist_drop sublist_order.order_trans)
      then show ?thesis by (simp add: sublist_Cons_right)
    qed
  next
    case False
    obtain f fs where s: "py_split sep cs = f # fs"
      using py_split_nonempty [of sep cs] by (cases "py_split sep cs") auto
    with False "2.prems" have "x = c # f \<or> x \<in> set fs" by simp
    then show ?thesis
    proof
      assume x: "x = c # f"
      from py_split_hd_prefix [of sep cs] s have "prefix f cs" by simp
      then have "prefix (c # f) (c # cs)" by simp
      with x show ?thesis by (simp add: prefix_imp_sublist)
    next
      assume "x \<in> set fs"
      with s have "x \<in> set (py_split sep cs)" by simp
      with "2.IH"(2) False have "sublist x cs" by simp
      then show ?thesis by (simp add: sublist_Cons_right)
    qed
  qed
qed

lemma py_strip_sublist: "sublist (py_strip s) s"
proof -
  have a: "sublist (dropWhile P xs) xs" for P and xs :: string
    by (metis sublist_order.order_refl suffix_dropWhile suffix_imp_sublist)
  have "sublist (rev (dropWhile is_space (rev (dropWhile is_space s)))) (dropWhile is_space s)"
    using a [of is_space "rev (dropWhile is_space s)"] by (metis rev_rev_ident sublist_rev)
  from this a [of is_space s] show ?thesis
    unfolding py_strip_def by (rule sublist_order.order_trans)
qed

lemma py_in_sublist: "py_in sub s \<longleftrightarrow> sublist sub s"
  by (induction s) (auto simp: sublist_Cons_right)


lemma id_fields_null_in_line:
  assumes "id_fields line = Inr k" "py_index k 0 = Inr k0" "py_strip k0 = ''[NULL]''"
  shows "py_in ''[NULL]'' line"
proof -
  from assms(1) obtain f where f: "py_index (py_split '','' line) 1 = Inr f"
    and k: "k = py_split ''-'' (py_strip f)"
    by (auto simp: id_fields_def bind_err_Inr)
  from f have "f \<in> set (py_split '','' line)"
    by (auto simp: py_index_def split: if_splits)
  then have 1: "sublist f line" by (rule py_split_sublist)
  from assms(2) have "k0 \<in> set k" by (auto simp: py_index_def split: if_splits)
  with k have 2: "sublist k0 (py_strip f)" by (simp add: py_split_sublist)
  have "sublist (py_strip k0) k0" by (rule py_strip_sublist)
  also note 2
  also have "sublist (py_strip f) f" by (rule py_strip_sublist)
  also note 1
  finally show ?thesis using assms(3) by (simp add: py_in_sublist)
qed

section \<open>Facts about the part loader\<close>

lemma load_id_lengths:
  assumes "load_id self part n = Inr nid" "dict_get (parts_id self) part = Inr rg"
  shows "length (id_image nid) = length (py_range (fst rg) (snd rg + 1))"
    and "length (id_rect nid) = length (py_range (fst rg) (snd rg + 1))"
    and "length (id_project nid) = length (py_range (fst rg) (snd rg + 1))"
    and "length (id_mutator nid) = length (py_range (fst rg) (snd rg + 1))"
  using assms by (auto simp: load_id_def load_id_rows_def bind_err_Inr dest: map_err_length)

lemma load_rows_aligned:
  assumes "load_rows ops self disk part xy = Inr d"
  shows "aligned d"
proof -
  from assms obtain fr rg r fp nid where
    rg: "dict_get (parts_id self) part = Inr rg" and
    r: "map_err (load_rect ops self fr) (py_range (fst rg) (snd rg + 1)) = Inr r" and
    l: "length fp = length r" and
    nid: "(if xy = ''x'' then load_id self part (photo_files_x self)
           else if xy = ''y'' then load_id self part (photo_files_y self)
           else Inl ValueError) = Inr nid" and
    d: "d = (r, fp, nid)"
    by (auto simp: load_rows_def bind_err_Inr py_assert_Inr)
  from nid obtain n where "load_id self part n = Inr nid" by (auto split: if_splits)
  from load_id_lengths [OF this rg] map_err_length [OF r] l d show ?thesis
    by (simp add: aligned_def)
qed

lemma aligned_select: "aligned (select_rows d js)"
  by (simp add: aligned_def select_rows_def)

lemma map_nth_upt: "length xs = n \<Longrightarrow> map ((!) xs) [0..<n] = xs"
  by (metis map_nth)

lemma select_rows_all: "aligned d \<Longrightarrow> select_rows d [0..<length (fst d)] = d"
proof -
  assume a: "aligned d"
  obtain r fp nid where d: "d = (r, fp, nid)" by (cases d)
  from a d have "map ((!) fp) [0..<length r] = fp" "map ((!) r) [0..<length r] = r"
    "map ((!) (id_image nid)) [0..<length r] = id_image nid"
    "map ((!) (id_rect nid)) [0..<length r] = id_rect nid"
    "map ((!) (id_project nid)) [0..<length r] = id_project nid"
    "map ((!) (id_mutator nid)) [0..<length r] = id_mutator nid"
    by (simp_all add: aligned_def map_nth_upt)
  then show ?thesis by (simp add: select_rows_def d)
qed

lemma map_nth_zip:
  "\<forall>j \<in> set js. j < length a \<and> j < length b \<Longrightarrow>
   map ((!) (zip a b)) js = zip (map ((!) a) js) (map ((!) b) js)"
  by (induction js) simp_all

lemma row_list_select:
  assumes "aligned d" "\<forall>j \<in> set js. j < length (fst d)"
  shows "row_list (select_rows d js) = map ((!) (row_list d)) js"
  using assms by (simp add: row_list_def select_rows_def aligned_def map_nth_zip)

lemma length_row_list: "aligned d \<Longrightarrow> length (row_list d) = length (fst d)"
  by (simp add: row_list_def aligned_def)

lemma remove_null_rows_select:
  assumes a: "aligned d"
  shows "remove_null_rows d =
     Inr (select_rows d (keep_rows d), int (length (fst d)) - int (length (keep_rows d)))"
proof -
  obtain r fp nid where d: "d = (r, fp, nid)" by (cases d)
  define n where "n = length r"
  define rem_id where "rem_id = np_where_eq (id_rect nid) (- 1)"
  from a d have len: "length fp = n" "length (id_image nid) = n" "length (id_rect nid) = n"
    "length (id_project nid) = n" "length (id_mutator nid) = n"
    by (simp_all add: aligned_def n_def)
  have rem: "rem_id = filter (\<lambda>j. id_rect nid ! j = - 1) [0..<n]"
    by (simp add: rem_id_def np_where_eq_def len)
  then have bound: "\<forall>j \<in> set rem_id. j < n" by simp
  have keep: "filter (\<lambda>j. j \<notin> set rem_id) [0..<n] = keep_rows d"
    unfolding keep_rows_def d rem by (rule filter_cong) (auto simp: n_def)
  have del: "np_delete xs rem_id = Inr (map ((!) xs) (keep_rows d))" if "length xs = n" for xs :: "'b list"
    using np_delete_select [of rem_id xs] bound that keep by simp
  have cnt: "length rem_id + length (keep_rows d) = n"
    using sum_length_filter_compl [of "\<lambda>j. id_rect nid ! j = - 1" "[0..<n]"]
    by (simp add: rem keep_rows_def d n_def)
  show ?thesis
  proof (cases "rem_id = []")
    case True
    with cnt have "length (keep_rows d) = n" by simp
    then have "keep_rows d = [0..<n]"
      unfolding keep_rows_def d using n_def
      by (metis filter_True length_filter_less length_upt less_irrefl minus_nat.diff_0 fst_conv filter_id_conv)
    then have "select_rows d (keep_rows d) = d" using select_rows_all [OF a] by (simp add: d n_def)
    with True cnt show ?thesis
      by (simp add: remove_null_rows_def Let_def d rem_id_def [symmetric] n_def)
  next
    case False
    then have "int (length rem_id) > 0" by simp
    moreover have "int (length rem_id) = int (length (fst d)) - int (length (keep_rows d))"
      using cnt by (simp add: d n_def)
    ultimately show ?thesis
      unfolding remove_null_rows_def Let_def
      by (simp add: d rem_id_def [symmetric] del len n_def [symmetric] bind_err_def select_rows_def)
  qed
qed

lemma shuffle_rows_select:
  assumes a: "aligned d"
  shows "shuffle_rows d g =
     Inr (select_rows d (fst (np_random_shuffle [0..<length (fst d)] g)),
          snd (np_random_shuffle [0..<length (fst d)] g))"
proof -
  obtain r fp nid where d: "d = (r, fp, nid)" by (cases d)
  define p where "p = fst (np_random_shuffle [0..<length r] g)"
  have "set p = {0..<length r}" by (simp add: p_def np_random_shuffle_upt_set)
  then have tk: "np_take xs p = Inr (map ((!) xs) p)" if "length xs = length r" for xs :: "'b list"
    using np_take_select [of p xs] that by simp
  from a d have len: "length fp = length r" "length (id_image nid) = length r"
    "length (id_rect nid) = length r" "length (id_project nid) = length r"
    "length (id_mutator nid) = length r"
    by (simp_all add: aligned_def)
  show ?thesis
    unfolding shuffle_rows_def Let_def
    by (simp add: d p_def [symmetric] tk len bind_err_def select_rows_def)
qed

lemma np_random_shuffle_length: "length (fst (np_random_shuffle a g)) = length a"
  using np_random_shuffle_mset [of a g] by (metis size_mset)

lemma load_data_part_error:
  "load_rows ops self disk part xy = Inl e \<Longrightarrow>
   load_data_part ops self disk part xy rn sh g = Inl e"
  by (simp add: load_data_part_def bind_err_def)

lemma load_data_part_select:
  assumes "load_rows ops self disk part xy = Inr d"
  shows "load_data_part ops self disk part xy rn sh g =
     (let d1 = (if rn then select_rows d (keep_rows d) else d);
          removed = (if rn then int (length (fst d)) - int (length (keep_rows d)) else 0)
      in if sh then
           Inr ((select_rows d1 (fst (np_random_shuffle [0..<length (fst d1)] g)), removed),
                snd (np_random_shuffle [0..<length (fst d1)] g))
         else Inr ((d1, removed), g))"
proof -
  note a = load_rows_aligned [OF assms]
  have a1: "aligned (if rn then select_rows d (keep_rows d) else d)"
    using a by (simp add: aligned_select)
  have s: "shuffle_rows d' g = Inr (select_rows d' (fst (np_random_shuffle [0..<length (fst d')] g)),
          snd (np_random_shuffle [0..<length (fst d')] g))" if "aligned d'" for d' :: "'a rows"
    using shuffle_rows_select [OF that] .
  show ?thesis
  proof (cases rn)
    case True
    then show ?thesis
      by (cases sh)
        (simp_all add: load_data_part_def assms bind_err_def remove_null_rows_select [OF a]
          s [OF aligned_select] Let_def)
  next
    case False
    then show ?thesis
      by (cases sh) (simp_all add: load_data_part_def assms bind_err_def s [OF a] Let_def)
  qed
qed

lemma load_data_part_True:
  assumes "load_data_part ops self disk part xs True sh g = Inr ((d, n), g')"
  shows "\<exists>d0. load_rows ops self disk part xs = Inr d0 \<and>
           n = int (length (fst d0)) - int (length (fst d)) \<and> aligned d \<and>
           - 1 \<notin> set (id_rect (snd (snd d)))"
proof -
  from assms obtain d0 where d0: "load_rows ops self disk part xs = Inr d0"
    by (cases "load_rows ops self disk part xs") (auto simp: load_data_part_error)
  define d1 where "d1 = select_rows d0 (keep_rows d0)"
  define p where "p = fst (np_random_shuffle [0..<length (fst d1)] g)"
  have l1: "length (fst d1) = length (keep_rows d0)" by (simp add: d1_def select_rows_def)
  have r1: "- 1 \<notin> set (id_rect (snd (snd d1)))"
    by (auto simp: d1_def select_rows_def keep_rows_def)
  from assms have dn: "d = (if sh then select_rows d1 p else d1)"
    "n = int (length (fst d0)) - int (length (keep_rows d0))"
    by (simp_all add: load_data_part_select [OF d0] Let_def d1_def p_def split: if_splits)
  have lp: "length p = length (fst d1)" by (simp add: p_def np_random_shuffle_length)
  have sp: "set p = {0..<length (fst d1)}" by (simp add: p_def np_random_shuffle_upt_set)
  have ad1: "aligned d1" by (simp add: d1_def aligned_select)
  have "set (id_rect (snd (snd (select_rows d1 p)))) \<subseteq> set (id_rect (snd (snd d1)))"
    using sp ad1 by (auto simp: select_rows_def aligned_def)
  with r1 dn have "- 1 \<notin> set (id_rect (snd (snd d)))" by (auto split: if_splits)
  moreover have "length (fst d) = length (keep_rows d0)"
    using dn lp l1 by (simp add: select_rows_def split: if_splits)
  moreover have "aligned d" using dn ad1 by (simp add: aligned_select)
  ultimately show ?thesis using d0 dn by simp
qed

lemma load_part_streams:
  assumes "load_part ops self disk part xy rn sh g = Inr (out, g')"
  shows "1 \<le> part \<and> part \<le> num_parts self" and "xy = ''x'' \<or> xy = ''y'' \<or> xy = ''xy''"
    and "out_x out \<noteq> None \<longleftrightarrow> xy = ''x'' \<or> xy = ''xy''"
    and "out_y out \<noteq> None \<longleftrightarrow> xy = ''y'' \<or> xy = ''xy''"
    and "out_x out = Some s \<Longrightarrow>
           \<exists>g0 r. load_data_part ops self disk part ''x'' rn sh g0 = Inr r \<and>
             s = stream_entries (fst r)"
    and "out_y out = Some s \<Longrightarrow>
           \<exists>g0 r. load_data_part ops self disk part ''y'' rn sh g0 = Inr r \<and>
             s = stream_entries (fst r)"
proof -
  from assms obtain x y where
    p: "1 \<le> part \<and> part \<le> num_parts self" and
    v: "xy \<in> set [''x'', ''y'', ''xy'']" and
    x: "(if xy = ''x'' \<or> xy = ''xy'' then
           bind_err (load_data_part ops self disk part ''x'' rn sh g)
             (\<lambda>r. Inr (Some (stream_entries (fst r)), snd r))
         else Inr (None, g)) = Inr x" and
    y: "(if xy = ''y'' \<or> xy = ''xy'' then
           bind_err (load_data_part ops self disk part ''y'' rn sh (snd x))
             (\<lambda>r. Inr (Some (stream_entries (fst r)), snd r))
         else Inr (None, snd x)) = Inr y" and
    o: "out = \<lparr>out_x = fst x, out_y = fst y, out_part = part, out_xy = xy\<rparr>"
    unfolding load_part_def by (auto simp: bind_err_Inr py_assert_Inr)
  show "1 \<le> part \<and> part \<le> num_parts self" by (rule p)
  show "xy = ''x'' \<or> xy = ''y'' \<or> xy = ''xy''" using v by simp
  show "out_x out \<noteq> None \<longleftrightarrow> xy = ''x'' \<or> xy = ''xy''"
    using x o by (auto simp: bind_err_Inr split: if_splits)
  show "out_y out \<noteq> None \<longleftrightarrow> xy = ''y'' \<or> xy = ''xy''"
    using y o by (auto simp: bind_err_Inr split: if_splits)
  show "\<exists>g0 r. load_data_part ops self disk part ''x'' rn sh g0 = Inr r \<and>
             s = stream_entries (fst r)" if "out_x out = Some s"
  proof -
    from that x o obtain r where "load_data_part ops self disk part ''x'' rn sh g = Inr r"
      "s = stream_entries (fst r)"
      by (auto simp: bind_err_Inr split: if_splits)
    then show ?thesis by blast
  qed
  show "\<exists>g0 r. load_data_part ops self disk part ''y'' rn sh g0 = Inr r \<and>
             s = stream_entries (fst r)" if "out_y out = Some s"
  proof -
    from that y o obtain r where "load_data_part ops self disk part ''y'' rn sh (snd x) = Inr r"
      "s = stream_entries (fst r)"
      by (auto simp: bind_err_Inr split: if_splits)
    then show ?thesis by blast
  qed
qed

lemma stream_rows_entries: "stream_rows (stream_entries (d, n)) = d"
  by (simp add: stream_rows_def stream_entries_def)

lemma stream_entries_sel:
  "s_len (stream_entries (d, n)) = length (fst (snd d))" "s_removed (stream_entries (d, n)) = n"
  "s_id (stream_entries (d, n)) = snd (snd d)"
  by (simp_all add: stream_entries_def)

lemma mset_map_nth_perm:
  assumes "mset p = mset [0..<length xs]"
  shows "mset (map ((!) xs) p) = mset xs"
proof -
  have "mset (map ((!) xs) p) = image_mset ((!) xs) (mset p)" by simp
  also have "\<dots> = image_mset ((!) xs) (mset [0..<length xs])" by (simp only: assms)
  also have "\<dots> = mset (map ((!) xs) [0..<length xs])" by simp
  also have "\<dots> = mset xs" by (simp only: map_nth)
  finally show ?thesis .
qed

lemma load_data_part_shuffle_rel:
  assumes "load_data_part ops self disk part xs rn True g = Inr (r, g1)"
  shows "\<exists>d1 n. load_data_part ops self disk part xs rn False g0 = Inr ((d1, n), g0) \<and>
           aligned d1 \<and>
           r = (select_rows d1 (fst (np_random_shuffle [0..<length (fst d1)] g)), n) \<and>
           g1 = snd (np_random_shuffle [0..<length (fst d1)] g)"
proof -
  from assms obtain d where d: "load_rows ops self disk part xs = Inr d"
    by (cases "load_rows ops self disk part xs") (auto simp: load_data_part_error)
  have "aligned (if rn then select_rows d (keep_rows d) else d)"
    using load_rows_aligned [OF d] by (simp add: aligned_select)
  with assms show ?thesis
    by (simp add: load_data_part_select [OF d] Let_def)
qed

lemma shuffled_stream:
  assumes a: "aligned d1" and p: "p = fst (np_random_shuffle [0..<length (fst d1)] g)"
    and s: "s = stream_entries (select_rows d1 p, n)" and s0: "s0 = stream_entries (d1, n)"
  shows "mset p = mset [0..<s_len s0] \<and>
         row_list (stream_rows s) = map ((!) (row_list (stream_rows s0))) p \<and>
         mset (row_list (stream_rows s)) = mset (row_list (stream_rows s0)) \<and>
         aligned (stream_rows s) \<and> aligned (stream_rows s0) \<and>
         s_removed s = s_removed s0 \<and> s_len s = s_len s0"
proof -
  have l0: "s_len s0 = length (fst d1)" using a by (simp add: s0 stream_entries_sel aligned_def)
  have mp: "mset p = mset [0..<length (fst d1)]" by (simp add: p np_random_shuffle_mset)
  then have sp: "set p = {0..<length (fst d1)}" by (metis mset_eq_setD set_upt)
  have lp: "length p = length (fst d1)" by (simp add: p np_random_shuffle_length)
  have rl: "row_list (select_rows d1 p) = map ((!) (row_list d1)) p"
    using row_list_select [OF a, of p] sp by simp
  have "mset (map ((!) (row_list d1)) p) = mset (row_list d1)"
    using mset_map_nth_perm [of p "row_list d1"] mp by (simp add: length_row_list [OF a])
  moreover have "s_len s = length p" by (simp add: s stream_entries_sel select_rows_def)
  ultimately show ?thesis using rl mp l0 lp a
    by (simp add: s s0 stream_rows_entries stream_entries_sel aligned_select)
qed

lemma load_part_cases:
  assumes "load_part ops self disk part xy rn sh g = Inr (out, g')"
  obtains
    (X) rx where "xy = ''x''" "load_data_part ops self disk part ''x'' rn sh g = Inr (rx, g')"
      "out = \<lparr>out_x = Some (stream_entries rx), out_y = None, out_part = part, out_xy = xy\<rparr>"
  | (Y) ry where "xy = ''y''" "load_data_part ops self disk part ''y'' rn sh g = Inr (ry, g')"
      "out = \<lparr>out_x = None, out_y = Some (stream_entries ry), out_part = part, out_xy = xy\<rparr>"
  | (XY) rx gx ry where "xy = ''xy''"
      "load_data_part ops self disk part ''x'' rn sh g = Inr (rx, gx)"
      "load_data_part ops self disk part ''y'' rn sh gx = Inr (ry, g')"
      "out = \<lparr>out_x = Some (stream_entries rx), out_y = Some (stream_entries ry),
              out_part = part, out_xy = xy\<rparr>"
proof -
  from assms have v: "xy = ''x'' \<or> xy = ''y'' \<or> xy = ''xy''"
    by (auto simp: load_part_def bind_err_Inr py_assert_Inr)
  then consider "xy = ''x''" | "xy = ''y''" | "xy = ''xy''" by blast
  then show thesis
  proof cases
    case 1
    with assms obtain r where "load_data_part ops self disk part ''x'' rn sh g = Inr r"
      "out = \<lparr>out_x = Some (stream_entries (fst r)), out_y = None, out_part = part, out_xy = xy\<rparr>"
      "g' = snd r"
      by (auto simp: load_part_def bind_err_Inr py_assert_Inr)
    then show thesis using X [of "fst r"] 1 by simp
  next
    case 2
    with assms obtain r where "load_data_part ops self disk part ''y'' rn sh g = Inr r"
      "out = \<lparr>out_x = None, out_y = Some (stream_entries (fst r)), out_part = part, out_xy = xy\<rparr>"
      "g' = snd r"
      by (auto simp: load_part_def bind_err_Inr py_assert_Inr)
    then show thesis using Y [of "fst r"] 2 by simp
  next
    case 3
    with assms obtain r r' where "load_data_part ops self disk part ''x'' rn sh g = Inr r"
      "load_data_part ops self disk part ''y'' rn sh (snd r) = Inr r'"
      "out = \<lparr>out_x = Some (stream_entries (fst r)), out_y = Some (stream_entries (fst r')),
              out_part = part, out_xy = xy\<rparr>"
      "g' = snd r'"
      by (auto simp: load_part_def bind_err_Inr py_assert_Inr)
    then show thesis using XY [of "fst r" "snd r" "fst r'"] 3 by simp
  qed
qed

lemma load_part_valid:
  "load_part ops self disk part xy rn sh g = Inr r \<Longrightarrow> 1 \<le> part \<and> part \<le> num_parts self"
  by (auto simp: load_part_def bind_err_Inr py_assert_Inr)


text \<open>The example loads.\<close>

lemma load_part2_shuffled_ex:
  "load_part ex_ops ex_loader ex_shards 2 ''xy'' False True [0, 1] = Inr (ex_part2_shuffled, [])"
  by code_simp

lemma load_part2_ex:
  "load_part ex_ops ex_loader ex_shards 2 ''xy'' False False g = Inr (ex_part2, g)"
  by code_simp

lemma load_part1_filtered_ex:
  "load_part ex_ops ex_loader ex_shards 1 ''x'' True False g = Inr (ex_part1_filtered, g)"
  by code_simp

text \<open>
  A shuffled load against the load with the same arguments that is not shuffled: each
  stream is the unshuffled stream, its rows taken in the order of one permutation.
\<close>

lemma load_part_shuffle_rel:
  assumes "load_part ops self disk part xy rn True g = Inr (out, g')"
  shows "\<exists>out0. load_part ops self disk part xy rn False g = Inr (out0, g) \<and>
     (out_x out \<noteq> None \<longleftrightarrow> xy = ''x'' \<or> xy = ''xy'') \<and>
     (out_y out \<noteq> None \<longleftrightarrow> xy = ''y'' \<or> xy = ''xy'') \<and>
     (\<forall>s. out_x out = Some s \<longrightarrow> (\<exists>s0 p. out_x out0 = Some s0 \<and>
         mset p = mset [0..<s_len s0] \<and>
         row_list (stream_rows s) = map ((!) (row_list (stream_rows s0))) p \<and>
         mset (row_list (stream_rows s)) = mset (row_list (stream_rows s0)) \<and>
         aligned (stream_rows s) \<and> aligned (stream_rows s0) \<and>
         s_removed s = s_removed s0 \<and> s_len s = s_len s0)) \<and>
     (\<forall>s. out_y out = Some s \<longrightarrow> (\<exists>s0 p. out_y out0 = Some s0 \<and>
         mset p = mset [0..<s_len s0] \<and>
         row_list (stream_rows s) = map ((!) (row_list (stream_rows s0))) p \<and>
         mset (row_list (stream_rows s)) = mset (row_list (stream_rows s0)) \<and>
         aligned (stream_rows s) \<and> aligned (stream_rows s0) \<and>
         s_removed s = s_removed s0 \<and> s_len s = s_len s0))"
proof -
  note v = load_part_valid [OF assms]
  from assms show ?thesis
  proof (cases rule: load_part_cases)
    case (X rx)
    from load_data_part_shuffle_rel [OF X(2), of g] obtain d1 n where
      u: "load_data_part ops self disk part ''x'' rn False g = Inr ((d1, n), g)" and
      a: "aligned d1" and
      r: "rx = (select_rows d1 (fst (np_random_shuffle [0..<length (fst d1)] g)), n)"
      by blast
    have "load_part ops self disk part xy rn False g =
        Inr (\<lparr>out_x = Some (stream_entries (d1, n)), out_y = None, out_part = part,
               out_xy = xy\<rparr>, g)"
      using v X(1) u by (simp add: load_part_def bind_err_def py_assert_def)
    moreover note shuffled_stream [OF a refl refl refl, of g n]
    ultimately show ?thesis using X(1,3) r by auto
  next
    case (Y ry)
    from load_data_part_shuffle_rel [OF Y(2), of g] obtain d1 n where
      u: "load_data_part ops self disk part ''y'' rn False g = Inr ((d1, n), g)" and
      a: "aligned d1" and
      r: "ry = (select_rows d1 (fst (np_random_shuffle [0..<length (fst d1)] g)), n)"
      by blast
    have "load_part ops self disk part xy rn False g =
        Inr (\<lparr>out_x = None, out_y = Some (stream_entries (d1, n)), out_part = part,
               out_xy = xy\<rparr>, g)"
      using v Y(1) u by (simp add: load_part_def bind_err_def py_assert_def)
    moreover note shuffled_stream [OF a refl refl refl, of g n]
    ultimately show ?thesis using Y(1,3) r by auto
  next
    case (XY rx gx ry)
    from load_data_part_shuffle_rel [OF XY(2), of g] obtain d1 n where
      u: "load_data_part ops self disk part ''x'' rn False g = Inr ((d1, n), g)" and
      a: "aligned d1" and
      r: "rx = (select_rows d1 (fst (np_random_shuffle [0..<length (fst d1)] g)), n)"
      by blast
    from load_data_part_shuffle_rel [OF XY(3), of g] obtain d2 m where
      u2: "load_data_part ops self disk part ''y'' rn False g = Inr ((d2, m), g)" and
      a2: "aligned d2" and
      r2: "ry = (select_rows d2 (fst (np_random_shuffle [0..<length (fst d2)] gx)), m)"
      by blast
    have "load_part ops self disk part xy rn False g =
        Inr (\<lparr>out_x = Some (stream_entries (d1, n)), out_y = Some (stream_entries (d2, m)),
               out_part = part, out_xy = xy\<rparr>, g)"
      using v XY(1) u u2 by (simp add: load_part_def bind_err_def py_assert_def)
    moreover note shuffled_stream [OF a refl refl refl, of g n]
      shuffled_stream [OF a2 refl refl refl, of gx m]
    ultimately show ?thesis using XY(1,4) r r2 by auto
  qed
qed

text \<open>What does not depend on the generator.\<close>

lemma load_data_part_unshuffled:
  assumes "load_data_part ops self disk part xs rn False g = Inr (r, g')"
  shows "g' = g" and "load_data_part ops self disk part xs rn False h = Inr (r, h)"
proof -
  from assms obtain d where d: "load_rows ops self disk part xs = Inr d"
    by (cases "load_rows ops self disk part xs") (auto simp: load_data_part_error)
  from assms show "g' = g" by (simp add: load_data_part_select [OF d] Let_def)
  from assms show "load_data_part ops self disk part xs rn False h = Inr (r, h)"
    by (simp add: load_data_part_select [OF d] Let_def)
qed

lemma load_part_unshuffled:
  assumes "load_part ops self disk part xy rn False g = Inr (out, g')"
  shows "g' = g \<and> load_part ops self disk part xy rn False h = Inr (out, h)"
proof -
  note v = load_part_valid [OF assms]
  from assms show ?thesis
  proof (cases rule: load_part_cases)
    case (X rx)
    from load_data_part_unshuffled [OF X(2)] v X(1,3) show ?thesis
      by (simp add: load_part_def bind_err_def py_assert_def)
  next
    case (Y ry)
    from load_data_part_unshuffled [OF Y(2)] v Y(1,3) show ?thesis
      by (simp add: load_part_def bind_err_def py_assert_def)
  next
    case (XY rx gx ry)
    from load_data_part_unshuffled [OF XY(2)] have gx: "gx = g"
      and x: "load_data_part ops self disk part ''x'' rn False h = Inr (rx, h)" by simp_all
    from load_data_part_unshuffled [OF XY(3)] gx have "g' = g"
      and y: "load_data_part ops self disk part ''y'' rn False h = Inr (ry, h)" by simp_all
    with x v XY(1,4) show ?thesis
      by (simp add: load_part_def bind_err_def py_assert_def)
  qed
qed

lemma load_data_part_Inl:
  "load_data_part ops self disk part xs rn sh g = Inl e \<longleftrightarrow>
   load_rows ops self disk part xs = Inl e"
proof (cases "load_rows ops self disk part xs")
  case (Inl e')
  then show ?thesis by (simp add: load_data_part_error)
next
  case (Inr d)
  then show ?thesis by (simp add: load_data_part_select [OF Inr] Let_def)
qed

lemma load_data_part_Inr_ex:
  "load_rows ops self disk part xs = Inr d \<Longrightarrow>
   \<exists>r. load_data_part ops self disk part xs rn sh g = Inr r"
  by (simp add: load_data_part_select Let_def del: split_paired_Ex)

lemma load_part_Inl_iff:
  "load_part ops self disk part xy rn sh g = Inl e \<longleftrightarrow>
     (\<not> (1 \<le> part \<and> part \<le> num_parts self) \<and> e = AssertionError ''Number of parts overflow'') \<or>
     (1 \<le> part \<and> part \<le> num_parts self \<and> xy \<notin> set [''x'', ''y'', ''xy''] \<and>
        e = AssertionError ''Invalid xy, expected x, y or xy'') \<or>
     (1 \<le> part \<and> part \<le> num_parts self \<and> (xy = ''x'' \<or> xy = ''xy'') \<and>
        load_rows ops self disk part ''x'' = Inl e) \<or>
     (1 \<le> part \<and> part \<le> num_parts self \<and> xy = ''y'' \<and>
        load_rows ops self disk part ''y'' = Inl e) \<or>
     (1 \<le> part \<and> part \<le> num_parts self \<and> xy = ''xy'' \<and>
        (\<exists>d. load_rows ops self disk part ''x'' = Inr d) \<and>
        load_rows ops self disk part ''y'' = Inl e)"
proof (cases "1 \<le> part \<and> part \<le> num_parts self")
  case False
  then show ?thesis by (auto simp: load_part_def bind_err_def py_assert_def)
next
  case v: True
  consider "xy = ''x''" | "xy = ''y''" | "xy = ''xy''" | "xy \<notin> set [''x'', ''y'', ''xy'']"
    by auto
  then show ?thesis
  proof cases
    case 1
    show ?thesis
    proof (cases "load_rows ops self disk part ''x''")
      case (Inl e')
      then show ?thesis using v 1
        by (auto simp: load_part_def bind_err_def py_assert_def load_data_part_error)
    next
      case (Inr d)
      from load_data_part_Inr_ex [OF Inr, of rn sh g] obtain r where
        "load_data_part ops self disk part ''x'' rn sh g = Inr r" by blast
      then show ?thesis using v 1 Inr
        by (simp add: load_part_def bind_err_def py_assert_def)
    qed
  next
    case 2
    show ?thesis
    proof (cases "load_rows ops self disk part ''y''")
      case (Inl e')
      then show ?thesis using v 2
        by (auto simp: load_part_def bind_err_def py_assert_def load_data_part_error)
    next
      case (Inr d)
      from load_data_part_Inr_ex [OF Inr, of rn sh g] obtain r where
        "load_data_part ops self disk part ''y'' rn sh g = Inr r" by blast
      then show ?thesis using v 2 Inr
        by (simp add: load_part_def bind_err_def py_assert_def)
    qed
  next
    case 3
    show ?thesis
    proof (cases "load_rows ops self disk part ''x''")
      case (Inl e')
      then show ?thesis using v 3
        by (auto simp: load_part_def bind_err_def py_assert_def load_data_part_error)
    next
      case x: (Inr d)
      from load_data_part_Inr_ex [OF x, of rn sh g] obtain r where
        r: "load_data_part ops self disk part ''x'' rn sh g = Inr r" by blast
      show ?thesis
      proof (cases "load_rows ops self disk part ''y''")
        case (Inl e')
        then show ?thesis using v 3 x r
          by (auto simp: load_part_def bind_err_def py_assert_def load_data_part_error
              simp del: split_paired_Ex)
      next
        case (Inr d')
        from load_data_part_Inr_ex [OF Inr, of rn sh "snd r"] obtain r' where
          "load_data_part ops self disk part ''y'' rn sh (snd r) = Inr r'" by blast
        then show ?thesis using v 3 x r Inr
          by (simp add: load_part_def bind_err_def py_assert_def)
      qed
    qed
  next
    case 4
    then show ?thesis using v by (auto simp: load_part_def bind_err_def py_assert_def)
  qed
qed

lemma load_part_Inl:
  "load_part ops self disk part xy rn sh g = Inl e \<Longrightarrow>
   load_part ops self disk part xy rn' sh' h = Inl e"
  unfolding load_part_Inl_iff .

lemma load_part_meta:
  assumes "load_part ops self disk part xy rn sh g = Inr (out, g')"
  shows "out_part out = part" and "out_xy out = xy"
  using assms by (cases rule: load_part_cases; simp)+

lemma same_rows_sym_trans: "same_rows s u \<Longrightarrow> same_rows t u \<Longrightarrow> same_rows t s"
  by (simp add: same_rows_def)

text \<open>A shuffled load holds the rows of the unshuffled load, whatever the generator.\<close>

lemma load_part_shuffled_same_rows:
  assumes a: "load_part ops self disk part xy rn True g = Inr (out, g')"
  shows "\<exists>out0. load_part ops self disk part xy rn False h = Inr (out0, h) \<and>
     (out_x out \<noteq> None \<longleftrightarrow> xy = ''x'' \<or> xy = ''xy'') \<and>
     (out_y out \<noteq> None \<longleftrightarrow> xy = ''y'' \<or> xy = ''xy'') \<and>
     (\<forall>s. out_x out = Some s \<longrightarrow> (\<exists>s0. out_x out0 = Some s0 \<and> same_rows s s0)) \<and>
     (\<forall>s. out_y out = Some s \<longrightarrow> (\<exists>s0. out_y out0 = Some s0 \<and> same_rows s s0))"
proof -
  from load_part_shuffle_rel [OF a] obtain out0 where
    u: "load_part ops self disk part xy rn False g = Inr (out0, g)" and
    x: "out_x out \<noteq> None \<longleftrightarrow> xy = ''x'' \<or> xy = ''xy''" and
    y: "out_y out \<noteq> None \<longleftrightarrow> xy = ''y'' \<or> xy = ''xy''" and
    rx: "\<forall>s. out_x out = Some s \<longrightarrow> (\<exists>s0 p. out_x out0 = Some s0 \<and>
         mset p = mset [0..<s_len s0] \<and>
         row_list (stream_rows s) = map ((!) (row_list (stream_rows s0))) p \<and>
         mset (row_list (stream_rows s)) = mset (row_list (stream_rows s0)) \<and>
         aligned (stream_rows s) \<and> aligned (stream_rows s0) \<and>
         s_removed s = s_removed s0 \<and> s_len s = s_len s0)" and
    ry: "\<forall>s. out_y out = Some s \<longrightarrow> (\<exists>s0 p. out_y out0 = Some s0 \<and>
         mset p = mset [0..<s_len s0] \<and>
         row_list (stream_rows s) = map ((!) (row_list (stream_rows s0))) p \<and>
         mset (row_list (stream_rows s)) = mset (row_list (stream_rows s0)) \<and>
         aligned (stream_rows s) \<and> aligned (stream_rows s0) \<and>
         s_removed s = s_removed s0 \<and> s_len s = s_len s0)"
    by (elim exE conjE)
  have u': "load_part ops self disk part xy rn False h = Inr (out0, h)"
    using load_part_unshuffled [OF u, of h] by (rule conjunct2)
  have sx: "\<exists>s0. out_x out0 = Some s0 \<and> same_rows s s0" if "out_x out = Some s" for s
  proof -
    from spec [OF rx, of s] that obtain s0 where "out_x out0 = Some s0"
      "mset (row_list (stream_rows s)) = mset (row_list (stream_rows s0))"
      "s_removed s = s_removed s0" "s_len s = s_len s0"
      by (elim impE exE conjE)
    then show ?thesis by (simp add: same_rows_def)
  qed
  have sy: "\<exists>s0. out_y out0 = Some s0 \<and> same_rows s s0" if "out_y out = Some s" for s
  proof -
    from spec [OF ry, of s] that obtain s0 where "out_y out0 = Some s0"
      "mset (row_list (stream_rows s)) = mset (row_list (stream_rows s0))"
      "s_removed s = s_removed s0" "s_len s = s_len s0"
      by (elim impE exE conjE)
    then show ?thesis by (simp add: same_rows_def)
  qed
  from u' x y sx sy show ?thesis by (intro exI [of _ out0] conjI allI impI)
qed

lemma load_part2x_swapped_ex:
  "load_part ex_ops ex_loader ex_shards 2 ''x'' False True [0, 1] = Inr (ex_part2x_swapped, [1])"
  by code_simp


text \<open>The rect images of a part.\<close>

lemma rescale_rect_Inr:
  "rescale_rect img = Inr y \<longleftrightarrow>
   np_min img = Inr 0 \<and> (\<exists>mx. np_max img = Inr mx \<and> mx \<le> 1) \<and> y = np_multiply_255 img"
  by (auto simp: rescale_rect_def bind_err_Inr py_assert_Inr)

lemma rescale_rect_min:
  "np_min img = Inr mn \<Longrightarrow> mn \<noteq> 0 \<Longrightarrow>
   rescale_rect img = Inl (AssertionError ''Invalid rect image min value, it must be 0'')"
  by (simp add: rescale_rect_def bind_err_def py_assert_def)

lemma rescale_rect_max:
  "np_min img = Inr 0 \<Longrightarrow> np_max img = Inr mx \<Longrightarrow> \<not> mx \<le> 1 \<Longrightarrow>
   rescale_rect img = Inl (AssertionError ''Invalid rect image max value, it must be 1'')"
  by (simp add: rescale_rect_def bind_err_def py_assert_def)

lemma load_rect_Inr:
  "load_rect ops self fr i = Inr y \<longleftrightarrow>
   (\<exists>fri img. py_index fr i = Inr fri \<and> prepare_rect ops self fri = Inr img \<and>
      np_min img = Inr 0 \<and> (\<exists>mx. np_max img = Inr mx \<and> mx \<le> 1) \<and> y = np_multiply_255 img)"
  by (auto simp: load_rect_def bind_err_Inr rescale_rect_Inr)

lemma load_rows_rect:
  assumes "load_rows ops self disk part xs = Inr d"
  shows "\<exists>rg. dict_get (parts_id self) part = Inr rg \<and>
           map_err (load_rect ops self
             (if xs = ''x'' then rect_images_x disk else rect_images_y disk))
             (py_range (fst rg) (snd rg + 1)) = Inr (fst d)"
    and "xs = ''x'' \<or> xs = ''y''"
  using assms by (auto simp: load_rows_def bind_err_Inr split: if_splits)

lemma load_rows_rect_fail:
  assumes xs: "xs = ''x'' \<and> fr = rect_images_x disk \<or> xs = ''y'' \<and> fr = rect_images_y disk"
    and rg: "dict_get (parts_id self) part = Inr rg"
    and i: "i \<in> set (py_range (fst rg) (snd rg + 1))"
    and f: "load_rect ops self fr i = Inl e"
  shows "\<exists>e'. load_rows ops self disk part xs = Inl e'"
proof -
  from map_err_Inl_ex [of "load_rect ops self fr" i e "py_range (fst rg) (snd rg + 1)", OF f i] obtain e' where
    "map_err (load_rect ops self fr) (py_range (fst rg) (snd rg + 1)) = Inl e'" by blast
  with xs rg show ?thesis by (auto simp: load_rows_def bind_err_def)
qed

lemma load_data_part_rect_subset:
  assumes "load_data_part ops self disk part xs rn sh g = Inr r"
  shows "\<exists>d0. load_rows ops self disk part xs = Inr d0 \<and> set (fst (fst (fst r))) \<subseteq> set (fst d0)"
proof -
  from assms obtain d0 where d0: "load_rows ops self disk part xs = Inr d0"
    by (cases "load_rows ops self disk part xs") (auto simp: load_data_part_error)
  have sub: "set (fst (select_rows d js)) \<subseteq> set (fst d)" if "\<forall>j \<in> set js. j < length (fst d)"
    for d :: "'a rows" and js
    using that by (auto simp: select_rows_def)
  have k: "set (fst (select_rows d0 (keep_rows d0))) \<subseteq> set (fst d0)"
    by (rule sub) (simp add: keep_rows_def)
  have p: "set (fst (select_rows d (fst (np_random_shuffle [0..<length (fst d)] g)))) \<subseteq> set (fst d)"
    for d :: "'a rows"
    by (rule sub) (simp add: np_random_shuffle_upt_set)
  from assms have "set (fst (fst (fst r))) \<subseteq> set (fst d0)"
    using k p [of d0] p [of "select_rows d0 (keep_rows d0)"]
    by (auto simp: load_data_part_select [OF d0] Let_def split: if_splits)
  with d0 show ?thesis by blast
qed

lemma s_rect_entries: "s_rect (stream_entries f) = fst (fst f)"
  by (simp add: stream_entries_def)

lemma load_part_not_Inr:
  assumes xs: "xs = ''x'' \<and> (xy = ''x'' \<or> xy = ''xy'') \<or> xs = ''y'' \<and> (xy = ''y'' \<or> xy = ''xy'')"
    and f: "load_rows ops self disk part xs = Inl e"
  shows "\<exists>e'. load_part ops self disk part xy rn sh g = Inl e'"
proof (cases "load_part ops self disk part xy rn sh g")
  case (Inl e')
  then show ?thesis by blast
next
  case (Inr r)
  then have l: "load_part ops self disk part xy rn sh g = Inr (fst r, snd r)" by simp
  from xs obtain s where "xs = ''x'' \<and> out_x (fst r) = Some s \<or> xs = ''y'' \<and> out_y (fst r) = Some s"
    using load_part_streams(3,4) [OF l] by auto
  with load_part_streams(5,6) [OF l, of s] obtain g0 r' where
    "load_data_part ops self disk part xs rn sh g0 = Inr r'" by blast
  with f show ?thesis by (simp add: load_data_part_error)
qed


text \<open>The ID rows of a part.\<close>

lemma id_row_image: "id_row line = Inr row \<Longrightarrow> get_id line = Inr (fst row)"
  by (auto simp: id_row_def get_id_def bind_err_Inr split: if_splits)

lemma py_range_nth: "k < length (py_range a b) \<Longrightarrow> py_range a b ! k = a + int k"
  by (simp add: py_range_def)

lemma load_rows_ids:
  assumes "load_rows ops self disk part xs = Inr d"
    and "dict_get (parts_id self) part = Inr rg"
    and "xs = ''x'' \<and> n = photo_files_x self \<or> xs = ''y'' \<and> n = photo_files_y self"
  shows "\<exists>rows. map_err (\<lambda>j. bind_err (py_index n j) id_row) (py_range (fst rg) (snd rg + 1))
             = Inr rows \<and>
           id_image (snd (snd d)) = map fst rows \<and>
           id_rect (snd (snd d)) = map (\<lambda>r. fst (snd r)) rows \<and>
           id_project (snd (snd d)) = map (\<lambda>r. fst (snd (snd r))) rows \<and>
           id_mutator (snd (snd d)) = map (\<lambda>r. snd (snd (snd r))) rows"
proof -
  from assms(1) obtain r fp nid where
    nid: "(if xs = ''x'' then load_id self part (photo_files_x self)
           else if xs = ''y'' then load_id self part (photo_files_y self)
           else Inl ValueError) = Inr nid" and d: "d = (r, fp, nid)"
    by (auto simp: load_rows_def bind_err_Inr)
  from nid assms(3) have "load_id self part n = Inr nid" by auto
  with assms(2) obtain rows where
    w: "map_err (\<lambda>j. bind_err (py_index n j) id_row) (py_range (fst rg) (snd rg + 1))
          = Inr rows" and
    e: "nid = \<lparr>id_image = map fst rows, id_rect = map (\<lambda>r. fst (snd r)) rows,
              id_project = map (\<lambda>r. fst (snd (snd r))) rows,
              id_mutator = map (\<lambda>r. snd (snd (snd r))) rows\<rparr>"
    by (auto simp: load_id_def load_id_rows_def bind_err_Inr)
  show ?thesis by (rule exI [of _ rows]) (simp add: w d e)
qed


text \<open>The rows are read at the positions \<open>first..last\<close> of the part.\<close>

lemma load_rows_positions:
  assumes l: "load_rows ops self disk part xs = Inr d"
    and rg: "dict_get (parts_id self) part = Inr rg"
    and xs: "xs = ''x'' \<and> fr = rect_images_x disk \<and> n = photo_files_x self \<or>
             xs = ''y'' \<and> fr = rect_images_y disk \<and> n = photo_files_y self"
  shows "length (fst d) = length (py_range (fst rg) (snd rg + 1)) \<and>
     length (id_image (snd (snd d))) = length (py_range (fst rg) (snd rg + 1)) \<and>
     (\<forall>k < length (fst d).
        load_rect ops self fr (fst rg + int k) = Inr (fst d ! k) \<and>
        bind_err (py_index n (fst rg + int k)) id_row =
          Inr (id_image (snd (snd d)) ! k, id_rect (snd (snd d)) ! k,
               id_project (snd (snd d)) ! k, id_mutator (snd (snd d)) ! k)) \<and>
     (id_image (snd (snd d)) = py_range (fst rg) (snd rg + 1) \<longleftrightarrow>
        (\<forall>j \<in> set (py_range (fst rg) (snd rg + 1)).
           \<exists>line. py_index n j = Inr line \<and> get_id line = Inr j)) \<and>
     (0 \<le> fst rg \<and> (\<forall>p < length n. get_id (n ! p) = Inr (int p)) \<longrightarrow>
        id_image (snd (snd d)) = py_range (fst rg) (snd rg + 1))"
proof -
  let ?R = "py_range (fst rg) (snd rg + 1)"
  from load_rows_rect(1) [OF l] rg xs have
    m: "map_err (load_rect ops self fr) ?R = Inr (fst d)" by auto
  from load_rows_ids [OF l rg, of n] xs obtain rows where
    w: "map_err (\<lambda>j. bind_err (py_index n j) id_row) ?R = Inr rows" and
    c: "id_image (snd (snd d)) = map fst rows"
       "id_rect (snd (snd d)) = map (\<lambda>r. fst (snd r)) rows"
       "id_project (snd (snd d)) = map (\<lambda>r. fst (snd (snd r))) rows"
       "id_mutator (snd (snd d)) = map (\<lambda>r. snd (snd (snd r))) rows"
    by auto
  note lm = map_err_length [OF m]
  note lw = map_err_length [OF w]
  have len: "length (fst d) = length ?R" "length (id_image (snd (snd d))) = length ?R"
    using lm lw c by simp_all
  have pos: "load_rect ops self fr (fst rg + int k) = Inr (fst d ! k) \<and>
        bind_err (py_index n (fst rg + int k)) id_row =
          Inr (id_image (snd (snd d)) ! k, id_rect (snd (snd d)) ! k,
               id_project (snd (snd d)) ! k, id_mutator (snd (snd d)) ! k)"
    if "k < length (fst d)" for k
  proof -
    from that lm have k: "k < length ?R" by simp
    from map_err_nth [OF m k] map_err_nth [OF w k] k lw c show ?thesis
      by (simp add: py_range_nth)
  qed
  have line: "\<exists>line. py_index n (?R ! k) = Inr line \<and> get_id line = Inr (id_image (snd (snd d)) ! k)"
    if "k < length ?R" for k
  proof -
    from map_err_nth [OF w that] obtain line where
      "py_index n (?R ! k) = Inr line" "id_row line = Inr (rows ! k)"
      by (auto simp: bind_err_Inr)
    with id_row_image [of line "rows ! k"] that lw c show ?thesis by simp
  qed
  have iff: "id_image (snd (snd d)) = ?R \<longleftrightarrow>
        (\<forall>j \<in> set ?R. \<exists>line. py_index n j = Inr line \<and> get_id line = Inr j)"
  proof
    assume e: "id_image (snd (snd d)) = ?R"
    show "\<forall>j \<in> set ?R. \<exists>line. py_index n j = Inr line \<and> get_id line = Inr j"
    proof
      fix j assume "j \<in> set ?R"
      then obtain k where k: "k < length ?R" "j = ?R ! k" by (auto simp: in_set_conv_nth)
      from line [OF k(1)] e k show "\<exists>line. py_index n j = Inr line \<and> get_id line = Inr j"
        by simp
    qed
  next
    assume a: "\<forall>j \<in> set ?R. \<exists>line. py_index n j = Inr line \<and> get_id line = Inr j"
    show "id_image (snd (snd d)) = ?R"
    proof (rule nth_equalityI)
      show "length (id_image (snd (snd d))) = length ?R" by (rule len(2))
    next
      fix k assume "k < length (id_image (snd (snd d)))"
      with len have k: "k < length ?R" by simp
      then have "?R ! k \<in> set ?R" by simp
      with a obtain line' where "py_index n (?R ! k) = Inr line'" "get_id line' = Inr (?R ! k)"
        by blast
      with line [OF k] show "id_image (snd (snd d)) ! k = ?R ! k" by auto
    qed
  qed
  have cor: "id_image (snd (snd d)) = ?R"
    if h: "0 \<le> fst rg \<and> (\<forall>p < length n. get_id (n ! p) = Inr (int p))"
  proof -
    have "\<exists>line. py_index n j = Inr line \<and> get_id line = Inr j" if "j \<in> set ?R" for j
    proof -
      from that obtain k where k: "k < length ?R" "j = ?R ! k" by (auto simp: in_set_conv_nth)
      from line [OF k(1)] obtain ln where ln: "py_index n j = Inr ln" by (auto simp: k)
      from k h have j0: "0 \<le> j" by (simp add: py_range_nth)
      with ln have "nat j < length n" "ln = n ! nat j"
        by (auto simp: py_index_def split: if_splits)
      with h j0 have "get_id ln = Inr j" by simp
      with ln show ?thesis by blast
    qed
    with iff show ?thesis by blast
  qed
  from len pos iff cor show ?thesis by blast
qed

lemma load_data_part2x_ex:
  "load_data_part ex_ops ex_loader ex_shards 2 ''x'' False False [] = Inr ((ex_rows2x, 0), [])"
  by code_simp


section \<open>Facts about \<^verbatim>\<open>str\<close>, \<^verbatim>\<open>int\<close> and the dictionaries\<close>

























section \<open>The part-index parser\<close>

lemma parts_step_distinct:
  "parts_step s j = Inr s' \<Longrightarrow> distinct (map fst (partsid s)) \<Longrightarrow>
   distinct (map fst (partsid s'))"
  by (auto simp: parts_step_def bind_err_Inr distinct_update split: if_splits)

lemma fold_parts_step_distinct:
  "fold_err parts_step js s = Inr s' \<Longrightarrow> distinct (map fst (partsid s)) \<Longrightarrow>
   distinct (map fst (partsid s'))"
proof (induction js arbitrary: s)
  case Nil
  then show ?case by simp
next
  case (Cons j js)
  then show ?case by (auto split: sum.splits dest: parts_step_distinct)
qed

text \<open>What a successful run of the parser has checked.\<close>

lemma load_photo_parts_checked:
  assumes "load_photo_parts raw = Inr (files, pid, prj)"
  shows "distinct (map fst pid)" and "0 \<notin> set (map fst pid)"
    and "\<forall>k \<in> set [0..<length pid - 1]. check_part pid (map fst pid) k = Inr ()"
proof -
  from assms obtain s where
    f: "fold_err parts_step (read_photo_files raw) parts_init = Inr s" and
    d: "dict_del (AList.update (last_part s) (last_part_id s, last_id s) (partsid s)) 0
          = Inr pid" and
    c: "for_each (check_part pid (map fst pid)) [0..<length (map fst pid) - 1] = Inr ()"
    by (auto simp: load_photo_parts_def Let_def bind_err_Inr)
  have "distinct (map fst (partsid s))"
    using fold_parts_step_distinct [OF f] by (simp add: parts_init_def)
  then show "distinct (map fst pid)"
    using dict_del_Inr [OF d] by (simp add: distinct_update distinct_delete)
  show "0 \<notin> set (map fst pid)"
    using dict_del_Inr [OF d] by (simp add: delete_notin_dom)
  show "\<forall>k \<in> set [0..<length pid - 1]. check_part pid (map fst pid) k = Inr ()"
    using c by (simp add: for_each_Inr)
qed

lemma check_part_facts:
  assumes "check_part d (map fst d) k = Inr ()" "distinct (map fst d)" "Suc k < length d"
  shows "fst (d ! Suc k) - fst (d ! k) = 1"
    and "fst (snd (d ! Suc k)) = snd (snd (d ! k)) + 1"
    and "snd (snd (d ! k)) - fst (snd (d ! k)) \<ge> 1"
proof -
  have i1: "py_index (map fst d) (int k + 1) = Inr (fst (d ! Suc k))"
    using assms(3) py_index_nat_Suc [of k "map fst d"] by simp
  have i0: "py_index (map fst d) (int k) = Inr (fst (d ! k))"
    using assms(3) py_index_nat [of k "map fst d"] by simp
  have g1: "dict_get d (fst (d ! Suc k)) = Inr (snd (d ! Suc k))"
    using assms by (simp add: dict_get_nth)
  have g0: "dict_get d (fst (d ! k)) = Inr (snd (d ! k))"
    using assms by (simp add: dict_get_nth)
  from assms(1) show "fst (d ! Suc k) - fst (d ! k) = 1"
    and "fst (snd (d ! Suc k)) = snd (snd (d ! k)) + 1"
    and "snd (snd (d ! k)) - fst (snd (d ! k)) \<ge> 1"
    unfolding check_part_def i1 i0 by (auto simp: bind_err_Inr py_assert_Inr g1 g0)
qed

lemma ranges_ordered:
  fixes d :: "(int, int \<times> int) dict"
  assumes step: "\<And>k. Suc k < length d \<Longrightarrow>
      fst (d ! Suc k) = fst (d ! k) + 1 \<and> fst (snd (d ! Suc k)) = snd (snd (d ! k)) + 1 \<and>
      fst (snd (d ! k)) < snd (snd (d ! k))"
  shows "i < j \<Longrightarrow> j < length d \<Longrightarrow>
      fst (d ! i) < fst (d ! j) \<and> snd (snd (d ! i)) < fst (snd (d ! j))"
proof (induction j)
  case 0
  then show ?case by simp
next
  case (Suc j)
  show ?case
  proof (cases "i = j")
    case True
    then show ?thesis using step [of j] Suc.prems by simp
  next
    case False
    then have "i < j" "j < length d" using Suc.prems by simp_all
    then have "fst (d ! i) < fst (d ! j) \<and> snd (snd (d ! i)) < fst (snd (d ! j))"
      using Suc.IH by simp
    then show ?thesis using step [of j] Suc.prems by simp
  qed
qed

lemma load_photo_parts_ex:
  "load_photo_parts ex_manifest = Inr (tl ex_manifest, ex_parts_id, ex_parts_project_id)"
  by code_simp

text \<open>
  Claim C5. The claim: whenever some part of the output has a sealed range of fewer than
  two ids, the last part included, the parser fails with a data-integrity error. The
  closing loop of \<^verbatim>\<open>_load_photo_parts\<close> runs over \<^verbatim>\<open>range(len(parts_key) - 1)\<close>
  and asserts the size of part \<^verbatim>\<open>parts_key[k]\<close> only, so the size of the last part is
  never looked at: on a manifest whose part 2 holds the single id 2 the parser returns,
  with the range (2, 2) for part 2.
\<close>

theorem C5_last_part_size_not_checked:
  "load_photo_parts short_last_part_manifest =
     Inr (tl short_last_part_manifest, [(1, 0, 1), (2, 2, 2)], [(1, [1]), (2, [1])])"
  by code_simp

text \<open>
  Claim C6. Whenever the parser returns, the part ranges it returns have no key 0, their
  keys are distinct and go up by one from each entry to the next, each part starts one
  past the end of the part before it, and every part but the last has a first id below
  its last id; hence the keys ascend, and every part ends before each later part starts
  (no gap, no overlap).
\<close>

theorem C6_part_ranges_contiguous:
  assumes "load_photo_parts raw = Inr (files, pid, prj)"
  shows "0 \<notin> set (map fst pid) \<and> distinct (map fst pid) \<and>
     (\<forall>k. Suc k < length pid \<longrightarrow>
        fst (pid ! Suc k) = fst (pid ! k) + 1 \<and>
        fst (snd (pid ! Suc k)) = snd (snd (pid ! k)) + 1 \<and>
        fst (snd (pid ! k)) < snd (snd (pid ! k))) \<and>
     (\<forall>i j. i < j \<and> j < length pid \<longrightarrow>
        fst (pid ! i) < fst (pid ! j) \<and> snd (snd (pid ! i)) < fst (snd (pid ! j)))"
proof -
  note c = load_photo_parts_checked [OF assms]
  have step: "fst (pid ! Suc k) = fst (pid ! k) + 1 \<and>
        fst (snd (pid ! Suc k)) = snd (snd (pid ! k)) + 1 \<and>
        fst (snd (pid ! k)) < snd (snd (pid ! k))" if "Suc k < length pid" for k
  proof -
    have "check_part pid (map fst pid) k = Inr ()" using c(3) that by simp
    from check_part_facts [OF this c(1) that] show ?thesis by simp
  qed
  from ranges_ordered [of pid, OF step] step c(1,2) show ?thesis by blast
qed

theorem C6_part_ranges_contiguous_witness:
  "load_photo_parts ex_manifest = Inr (tl ex_manifest, ex_parts_id, ex_parts_project_id) \<and>
   0 \<notin> set (map fst ex_parts_id) \<and> distinct (map fst ex_parts_id) \<and>
   fst (ex_parts_id ! 1) = fst (ex_parts_id ! 0) + 1 \<and>
   fst (snd (ex_parts_id ! 2)) = snd (snd (ex_parts_id ! 1)) + 1 \<and>
   snd (snd (ex_parts_id ! 0)) < fst (snd (ex_parts_id ! 2))"
proof -
  note t = C6_part_ranges_contiguous [OF load_photo_parts_ex]
  have l: "length ex_parts_id = 3" by (simp add: ex_parts_id_def)
  from t have "0 \<notin> set (map fst ex_parts_id)" "distinct (map fst ex_parts_id)"
    by blast+
  moreover from t l have "fst (ex_parts_id ! 1) = fst (ex_parts_id ! 0) + 1"
    by (metis One_nat_def Suc_1 Suc_lessI lessI numeral_3_eq_3 zero_less_Suc less_trans)
  ultimately show ?thesis using load_photo_parts_ex by (simp add: ex_parts_id_def)
qed

section \<open>The project id, by the parser and by the loader\<close>

text \<open>
  Claim C4, as stated: for every manifest line the parser and the loader extract the same
  project id, both shifting the field offset exactly when the null marker is the rect-id
  field. The parser tests \<^verbatim>\<open>'[NULL]' not in line\<close>, the loader tests the first
  field: on a record with the marker in a later field the parser shifts and the loader
  does not, and they return the project ids 3 and 7. The parser accepts the manifest
  that holds the record, and lists project 3 for part 1.
\<close>

theorem C4_stray_marker_project_ids_differ:
  "get_project_id stray_marker_line = Inr 3 \<and>
   id_row stray_marker_line = Inr (1, 12, 7, 3) \<and>
   py_in ''[NULL]'' stray_marker_line \<and> \<not> null_rect_field stray_marker_line \<and>
   load_photo_parts stray_marker_manifest =
     Inr (tl stray_marker_manifest, [(1, 0, 1), (2, 2, 3)], [(1, [1, 3]), (2, [2])])"
  by code_simp

text \<open>
  Claim C4, amended. The loader shifts the field offset exactly when the marker is the
  rect-id field, the parser whenever the marker occurs anywhere in the line; when the
  loader shifts, so does the parser. On every line where the marker, if it occurs at all,
  is the rect-id field, the project id in the row of the loader is the project id the
  parser returns.
\<close>

lemma null_rect_field_iff:
  "id_fields line = Inr k \<Longrightarrow> py_index k 0 = Inr k0 \<Longrightarrow>
   null_rect_field line \<longleftrightarrow> py_strip k0 = ''[NULL]''"
  by (simp add: null_rect_field_def)

lemma null_rect_field_in_line: "null_rect_field line \<Longrightarrow> py_in ''[NULL]'' line"
  by (auto simp: null_rect_field_def split: sum.splits dest: id_fields_null_in_line)

lemma get_project_id_offset:
  "get_project_id line =
     bind_err (id_fields line) (\<lambda>k.
       bind_err (py_index k (if py_in ''[NULL]'' line then 2 else 1)) py_int)"
  by (simp add: get_project_id_def bind_err_def split: sum.splits)

lemma id_row_offset:
  assumes "id_row line = Inr (i, r, p, m)"
  shows "\<exists>k. id_fields line = Inr k \<and>
     bind_err (py_index k (if null_rect_field line then 2 else 1)) py_int = Inr p"
proof -
  from assms obtain k k0 where k: "id_fields line = Inr k" "py_index k 0 = Inr k0"
    by (auto simp: id_row_def bind_err_Inr)
  note n = null_rect_field_iff [OF k]
  from assms k show ?thesis
    by (auto simp: id_row_def n bind_err_Inr split: if_splits)
qed

theorem C4_same_project_id:
  "(null_rect_field line \<longrightarrow> py_in ''[NULL]'' line) \<and>
   get_project_id line =
     bind_err (id_fields line) (\<lambda>k.
       bind_err (py_index k (if py_in ''[NULL]'' line then 2 else 1)) py_int) \<and>
   (id_row line = Inr (i, r, p, m) \<longrightarrow>
      (\<exists>k. id_fields line = Inr k \<and>
         bind_err (py_index k (if null_rect_field line then 2 else 1)) py_int = Inr p)) \<and>
   ((py_in ''[NULL]'' line \<longrightarrow> null_rect_field line) \<and> id_row line = Inr (i, r, p, m) \<longrightarrow>
      get_project_id line = Inr p)"
proof (intro conjI impI)
  assume "null_rect_field line"
  then show "py_in ''[NULL]'' line" by (rule null_rect_field_in_line)
next
  show "get_project_id line =
     bind_err (id_fields line) (\<lambda>k.
       bind_err (py_index k (if py_in ''[NULL]'' line then 2 else 1)) py_int)"
    by (rule get_project_id_offset)
next
  assume "id_row line = Inr (i, r, p, m)"
  then show "\<exists>k. id_fields line = Inr k \<and>
         bind_err (py_index k (if null_rect_field line then 2 else 1)) py_int = Inr p"
    by (rule id_row_offset)
next
  assume a: "(py_in ''[NULL]'' line \<longrightarrow> null_rect_field line) \<and> id_row line = Inr (i, r, p, m)"
  then have e: "py_in ''[NULL]'' line \<longleftrightarrow> null_rect_field line"
    using null_rect_field_in_line [of line] by blast
  from a id_row_offset [of line i r p m] obtain k where
    "id_fields line = Inr k"
    "bind_err (py_index k (if null_rect_field line then 2 else 1)) py_int = Inr p"
    by blast
  then show "get_project_id line = Inr p"
    by (simp add: get_project_id_offset e bind_err_def)
qed

theorem C4_same_project_id_witness:
  "null_rect_field ''1,[NULL]-0-1-2-part1'' \<and> py_in ''[NULL]'' ''1,[NULL]-0-1-2-part1'' \<and>
   id_row ''1,[NULL]-0-1-2-part1'' = Inr (1, - 1, 1, 2) \<and>
   get_project_id ''1,[NULL]-0-1-2-part1'' = Inr 1 \<and>
   id_row ''3,8-2-2-part2'' = Inr (3, 8, 2, 2) \<and> get_project_id ''3,8-2-2-part2'' = Inr 2"
proof -
  have n: "null_rect_field ''1,[NULL]-0-1-2-part1''" by code_simp
  have r: "id_row ''1,[NULL]-0-1-2-part1'' = Inr (1, - 1, 1, 2)" by code_simp
  note t = C4_same_project_id [of "''1,[NULL]-0-1-2-part1''" 1 "- 1" 1 2]
  note i = mp [OF conjunct1 [OF t] n]
  from n have "py_in ''[NULL]'' ''1,[NULL]-0-1-2-part1'' \<longrightarrow> null_rect_field ''1,[NULL]-0-1-2-part1''"
    by simp
  note g = mp [OF conjunct2 [OF conjunct2 [OF conjunct2 [OF t]]] conjI [OF this r]]
  have r2: "id_row ''3,8-2-2-part2'' = Inr (3, 8, 2, 2)" by code_simp
  have n2: "py_in ''[NULL]'' ''3,8-2-2-part2'' \<longrightarrow> null_rect_field ''3,8-2-2-part2''"
    by code_simp
  note t2 = C4_same_project_id [of "''3,8-2-2-part2''" 3 8 2 2]
  note g2 = mp [OF conjunct2 [OF conjunct2 [OF conjunct2 [OF t2]]] conjI [OF n2 r2]]
  from n i r g r2 g2 show ?thesis by (intro conjI)
qed

section \<open>Claims about the part loader\<close>

text \<open>
  Claim C1. Whenever \<^verbatim>\<open>load_part\<close> with \<^verbatim>\<open>remove_null=True\<close> returns, the
  entries of each stream that was asked for are there, the rect ID array of the stream
  holds no -1, its length is the reported length (\<^verbatim>\<open>x_len\<close>, \<^verbatim>\<open>y_len\<close>), and the
  reported number of removed rows is the length of the rect ID array before the filter
  minus the reported length.
\<close>

theorem C1_remove_null_no_sentinel:
  assumes "load_part ops self disk part xy True shuffle g = Inr (out, g')"
  shows "(out_x out \<noteq> None \<longleftrightarrow> xy = ''x'' \<or> xy = ''xy'') \<and>
     (out_y out \<noteq> None \<longleftrightarrow> xy = ''y'' \<or> xy = ''xy'') \<and>
     (\<forall>s. out_x out = Some s \<longrightarrow>
        - 1 \<notin> set (id_rect (s_id s)) \<and> length (id_rect (s_id s)) = s_len s \<and>
        (\<exists>d0. load_rows ops self disk part ''x'' = Inr d0 \<and>
           s_removed s = int (length (id_rect (snd (snd d0)))) - int (s_len s))) \<and>
     (\<forall>s. out_y out = Some s \<longrightarrow>
        - 1 \<notin> set (id_rect (s_id s)) \<and> length (id_rect (s_id s)) = s_len s \<and>
        (\<exists>d0. load_rows ops self disk part ''y'' = Inr d0 \<and>
           s_removed s = int (length (id_rect (snd (snd d0)))) - int (s_len s)))"
proof -
  have st: "- 1 \<notin> set (id_rect (s_id s)) \<and> length (id_rect (s_id s)) = s_len s \<and>
        (\<exists>d0. load_rows ops self disk part xs = Inr d0 \<and>
           s_removed s = int (length (id_rect (snd (snd d0)))) - int (s_len s))"
    if "load_data_part ops self disk part xs True shuffle g0 = Inr r"
      and "s = stream_entries (fst r)" for s xs g0 r
  proof -
    obtain d n g1 where r: "r = ((d, n), g1)" by (cases r) auto
    from load_data_part_True [OF that(1) [unfolded r]] obtain d0 where
      d0: "load_rows ops self disk part xs = Inr d0" and
      n: "n = int (length (fst d0)) - int (length (fst d))" and
      a: "aligned d" and m: "- 1 \<notin> set (id_rect (snd (snd d)))"
      by blast
    from load_rows_aligned [OF d0] have "length (id_rect (snd (snd d0))) = length (fst d0)"
      by (simp add: aligned_def)
    with d0 n a m show ?thesis
      by (simp add: that(2) r stream_entries_sel aligned_def)
  qed
  from load_part_streams [OF assms] st show ?thesis by blast
qed

theorem C1_remove_null_no_sentinel_witness:
  "load_part ex_ops ex_loader ex_shards 1 ''x'' True False [] = Inr (ex_part1_filtered, []) \<and>
   out_x ex_part1_filtered \<noteq> None \<and>
   (\<exists>s d0. out_x ex_part1_filtered = Some s \<and> - 1 \<notin> set (id_rect (s_id s)) \<and>
      load_rows ex_ops ex_loader ex_shards 1 ''x'' = Inr d0 \<and>
      s_removed s = int (length (id_rect (snd (snd d0)))) - int (s_len s) \<and>
      s_removed s = 1 \<and> s_len s = 1)"
proof -
  note t = C1_remove_null_no_sentinel [OF load_part1_filtered_ex [of "[]"]]
  obtain s where s: "out_x ex_part1_filtered = Some s" "s_removed s = 1" "s_len s = 1"
    by (simp add: ex_part1_filtered_def)
  with t show ?thesis using load_part1_filtered_ex [of "[]"] by blast
qed

text \<open>
  Claim C2. Whenever \<^verbatim>\<open>load_part\<close> with \<^verbatim>\<open>shuffle=True\<close> returns, the call with
  the same arguments and \<^verbatim>\<open>shuffle=False\<close> returns too, and for each stream asked for
  there is one permutation \<open>p\<close> of the positions such that the row at position \<open>k\<close> of
  the shuffled result (rect image, floor photo, image id, rect id, project id, mutator
  id) is the row at position \<open>p ! k\<close> of the unshuffled result. Hence the multiset of
  rows is the same, every id tuple keeps its rect image and its floor photo, and the
  length and the number of removed rows do not change.
\<close>

theorem C2_shuffle_common_permutation:
  assumes "load_part ops self disk part xy rn True g = Inr (out, g')"
  shows "\<exists>out0. load_part ops self disk part xy rn False g = Inr (out0, g) \<and>
     (out_x out \<noteq> None \<longleftrightarrow> xy = ''x'' \<or> xy = ''xy'') \<and>
     (out_y out \<noteq> None \<longleftrightarrow> xy = ''y'' \<or> xy = ''xy'') \<and>
     (\<forall>s. out_x out = Some s \<longrightarrow> (\<exists>s0 p. out_x out0 = Some s0 \<and>
         mset p = mset [0..<s_len s0] \<and>
         row_list (stream_rows s) = map ((!) (row_list (stream_rows s0))) p \<and>
         mset (row_list (stream_rows s)) = mset (row_list (stream_rows s0)) \<and>
         aligned (stream_rows s) \<and> aligned (stream_rows s0) \<and>
         s_removed s = s_removed s0 \<and> s_len s = s_len s0)) \<and>
     (\<forall>s. out_y out = Some s \<longrightarrow> (\<exists>s0 p. out_y out0 = Some s0 \<and>
         mset p = mset [0..<s_len s0] \<and>
         row_list (stream_rows s) = map ((!) (row_list (stream_rows s0))) p \<and>
         mset (row_list (stream_rows s)) = mset (row_list (stream_rows s0)) \<and>
         aligned (stream_rows s) \<and> aligned (stream_rows s0) \<and>
         s_removed s = s_removed s0 \<and> s_len s = s_len s0))"
  using load_part_shuffle_rel [OF assms] .

theorem C2_shuffle_common_permutation_witness:
  "load_part ex_ops ex_loader ex_shards 2 ''xy'' False True [0, 1] = Inr (ex_part2_shuffled, []) \<and>
   load_part ex_ops ex_loader ex_shards 2 ''xy'' False False [0, 1] = Inr (ex_part2, [0, 1]) \<and>
   (\<exists>s s0 p. out_x ex_part2_shuffled = Some s \<and> out_x ex_part2 = Some s0 \<and>
      mset p = mset [0..<s_len s0] \<and>
      row_list (stream_rows s) = map ((!) (row_list (stream_rows s0))) p \<and>
      mset (row_list (stream_rows s)) = mset (row_list (stream_rows s0)))"
proof -
  from C2_shuffle_common_permutation [OF load_part2_shuffled_ex] obtain out0 where
    o: "load_part ex_ops ex_loader ex_shards 2 ''xy'' False False [0, 1] = Inr (out0, [0, 1])" and
    x: "\<forall>s. out_x ex_part2_shuffled = Some s \<longrightarrow> (\<exists>s0 p. out_x out0 = Some s0 \<and>
         mset p = mset [0..<s_len s0] \<and>
         row_list (stream_rows s) = map ((!) (row_list (stream_rows s0))) p \<and>
         mset (row_list (stream_rows s)) = mset (row_list (stream_rows s0)) \<and>
         aligned (stream_rows s) \<and> aligned (stream_rows s0) \<and>
         s_removed s = s_removed s0 \<and> s_len s = s_len s0)"
    by blast
  from o have e: "out0 = ex_part2" by (simp add: load_part2_ex)
  have "\<exists>s. out_x ex_part2_shuffled = Some s" by (simp add: ex_part2_shuffled_def)
  with x e show ?thesis using load_part2_shuffled_ex load_part2_ex by blast
qed

text \<open>
  Claim C3, as stated: two successive \<^verbatim>\<open>load_part\<close> calls with the same arguments
  over unchanged files return identical arrays and ID tables, also with
  \<^verbatim>\<open>shuffle=True\<close>. The order of a shuffled result is drawn from NumPy's global
  generator, which the first call advances: with the draws 0 and 1 ahead, the first call
  on part 2 of stream x swaps the two rows and the second call, which starts from the
  generator the first one left, does not.
\<close>

theorem C3_shuffled_calls_differ:
  "load_part ex_ops ex_loader ex_shards 2 ''x'' False True [0, 1] = Inr (ex_part2x_swapped, [1]) \<and>
   load_part ex_ops ex_loader ex_shards 2 ''x'' False True [1] = Inr (ex_part2x, []) \<and>
   ex_part2x_swapped \<noteq> ex_part2x"
  by code_simp

text \<open>
  Claim C3, amended. With \<^verbatim>\<open>shuffle=False\<close> the result does not depend on the
  generator and the generator is left as it was, so a second call returns the same
  result. A call that fails fails with the same error whatever the state of the generator.
  With \<^verbatim>\<open>shuffle=True\<close> the second call returns too, for the same part and streams,
  and each stream holds the same rows as in the first result (the same multiset of rect
  image, floor photo and ids, the same length and number of removed rows), in an order
  of its own.
\<close>

theorem C3_determinism_up_to_order:
  "(load_part ops self disk part xy rn False g = Inr (out, g') \<longrightarrow>
      g' = g \<and> load_part ops self disk part xy rn False g' = Inr (out, g')) \<and>
   (load_part ops self disk part xy rn sh g = Inl e \<longrightarrow>
      (\<forall>h. load_part ops self disk part xy rn sh h = Inl e)) \<and>
   (load_part ops self disk part xy rn True g = Inr (out1, g1) \<longrightarrow>
      (\<exists>out2 g2. load_part ops self disk part xy rn True g1 = Inr (out2, g2) \<and>
         out_part out2 = out_part out1 \<and> out_xy out2 = out_xy out1 \<and>
         (out_x out2 = None \<longleftrightarrow> out_x out1 = None) \<and>
         (out_y out2 = None \<longleftrightarrow> out_y out1 = None) \<and>
         (\<forall>s1 s2. out_x out1 = Some s1 \<and> out_x out2 = Some s2 \<longrightarrow> same_rows s2 s1) \<and>
         (\<forall>s1 s2. out_y out1 = Some s1 \<and> out_y out2 = Some s2 \<longrightarrow> same_rows s2 s1)))"
proof (intro conjI impI)
  assume a: "load_part ops self disk part xy rn False g = Inr (out, g')"
  from load_part_unshuffled [OF a, of g] show "g' = g" by (rule conjunct1)
  from load_part_unshuffled [OF a, of g']
  show "load_part ops self disk part xy rn False g' = Inr (out, g')" by (rule conjunct2)
next
  assume "load_part ops self disk part xy rn sh g = Inl e"
  then show "\<forall>h. load_part ops self disk part xy rn sh h = Inl e"
    by (intro allI) (rule load_part_Inl)
next
  assume a: "load_part ops self disk part xy rn True g = Inr (out1, g1)"
  obtain out2 g2 where b: "load_part ops self disk part xy rn True g1 = Inr (out2, g2)"
  proof (cases "load_part ops self disk part xy rn True g1")
    case (Inl e)
    from load_part_Inl [OF this, of rn True g] a show ?thesis by simp
  next
    case (Inr r)
    then show ?thesis using that [of "fst r" "snd r"] by simp
  qed
  from load_part_shuffled_same_rows [OF a, of g] obtain out0 where
    u: "load_part ops self disk part xy rn False g = Inr (out0, g)" and
    x1: "out_x out1 \<noteq> None \<longleftrightarrow> xy = ''x'' \<or> xy = ''xy''" and
    y1: "out_y out1 \<noteq> None \<longleftrightarrow> xy = ''y'' \<or> xy = ''xy''" and
    rx1: "\<forall>s. out_x out1 = Some s \<longrightarrow> (\<exists>s0. out_x out0 = Some s0 \<and> same_rows s s0)" and
    ry1: "\<forall>s. out_y out1 = Some s \<longrightarrow> (\<exists>s0. out_y out0 = Some s0 \<and> same_rows s s0)"
    by (elim exE conjE)
  from load_part_shuffled_same_rows [OF b, of g] obtain out0' where
    u': "load_part ops self disk part xy rn False g = Inr (out0', g)" and
    x2: "out_x out2 \<noteq> None \<longleftrightarrow> xy = ''x'' \<or> xy = ''xy''" and
    y2: "out_y out2 \<noteq> None \<longleftrightarrow> xy = ''y'' \<or> xy = ''xy''" and
    rx2': "\<forall>s. out_x out2 = Some s \<longrightarrow> (\<exists>s0. out_x out0' = Some s0 \<and> same_rows s s0)" and
    ry2': "\<forall>s. out_y out2 = Some s \<longrightarrow> (\<exists>s0. out_y out0' = Some s0 \<and> same_rows s s0)"
    by (elim exE conjE)
  from u u' have o: "out0' = out0" by simp
  have px: "same_rows s2 s1" if "out_x out1 = Some s1 \<and> out_x out2 = Some s2" for s1 s2
  proof -
    from rx1 that obtain s0 where s0: "out_x out0 = Some s0" "same_rows s1 s0" by blast
    from rx2' that o obtain s0' where s0': "out_x out0 = Some s0'" "same_rows s2 s0'" by blast
    from s0 s0' have "s0' = s0" by simp
    with s0'(2) have "same_rows s2 s0" by simp
    with s0(2) show ?thesis by (rule same_rows_sym_trans)
  qed
  have py: "same_rows s2 s1" if "out_y out1 = Some s1 \<and> out_y out2 = Some s2" for s1 s2
  proof -
    from ry1 that obtain s0 where s0: "out_y out0 = Some s0" "same_rows s1 s0" by blast
    from ry2' that o obtain s0' where s0': "out_y out0 = Some s0'" "same_rows s2 s0'" by blast
    from s0 s0' have "s0' = s0" by simp
    with s0'(2) have "same_rows s2 s0" by simp
    with s0(2) show ?thesis by (rule same_rows_sym_trans)
  qed
  have m: "out_part out2 = out_part out1" "out_xy out2 = out_xy out1"
    using load_part_meta [OF a] load_part_meta [OF b] by simp_all
  have nx: "out_x out2 = None \<longleftrightarrow> out_x out1 = None" using x1 x2 by blast
  have ny: "out_y out2 = None \<longleftrightarrow> out_y out1 = None" using y1 y2 by blast
  from b m nx ny px py
  show "\<exists>out2 g2. load_part ops self disk part xy rn True g1 = Inr (out2, g2) \<and>
         out_part out2 = out_part out1 \<and> out_xy out2 = out_xy out1 \<and>
         (out_x out2 = None \<longleftrightarrow> out_x out1 = None) \<and>
         (out_y out2 = None \<longleftrightarrow> out_y out1 = None) \<and>
         (\<forall>s1 s2. out_x out1 = Some s1 \<and> out_x out2 = Some s2 \<longrightarrow> same_rows s2 s1) \<and>
         (\<forall>s1 s2. out_y out1 = Some s1 \<and> out_y out2 = Some s2 \<longrightarrow> same_rows s2 s1)"
    by (intro exI [of _ out2] exI [of _ g2] conjI allI impI)
qed

theorem C3_determinism_up_to_order_witness:
  "load_part ex_ops ex_loader ex_shards 2 ''x'' False True [0, 1] = Inr (ex_part2x_swapped, [1]) \<and>
   (\<exists>out2 g2. load_part ex_ops ex_loader ex_shards 2 ''x'' False True [1] = Inr (out2, g2) \<and>
      out_part out2 = out_part ex_part2x_swapped \<and> out_xy out2 = out_xy ex_part2x_swapped)"
proof -
  note t = C3_determinism_up_to_order [of ex_ops ex_loader ex_shards 2 "''x''" False "[0, 1]"
      ex_part2x "[0, 1]" True "AssertionError []" ex_part2x_swapped "[1]"]
  note t3 = mp [OF conjunct2 [OF conjunct2 [OF t]] load_part2x_swapped_ex]
  then obtain out2 g2 where
    "load_part ex_ops ex_loader ex_shards 2 ''x'' False True [1] = Inr (out2, g2)"
    "out_part out2 = out_part ex_part2x_swapped" "out_xy out2 = out_xy ex_part2x_swapped"
    by (elim exE conjE)
  then have "\<exists>out2 g2. load_part ex_ops ex_loader ex_shards 2 ''x'' False True [1] = Inr (out2, g2) \<and>
      out_part out2 = out_part ex_part2x_swapped \<and> out_xy out2 = out_xy ex_part2x_swapped"
    by (intro exI [of _ out2] exI [of _ g2] conjI)
  with load_part2x_swapped_ex show ?thesis by (rule conjI)
qed

text \<open>
  Claim C7. In \<^verbatim>\<open>load_part\<close>, for a stream that is asked for, take any rect image at
  a position of the part: when the image that the cast, the resampling and the channel
  replication make of it does not have the minimum 0 and a maximum of at most 1, the
  rest of the loop body raises, and the whole load returns an error and no data. The
  error of the loop body is the assertion on the minimum when the minimum is not 0, and
  the assertion on the maximum when the minimum is 0 and the maximum is above 1. When the
  load returns, every rect image of the result is such a prepared image with minimum 0
  and maximum at most 1, each pixel multiplied by 255 in 8-bit arithmetic.
\<close>

theorem C7_pixel_range_contract:
  assumes xs: "xs = ''x'' \<and> (xy = ''x'' \<or> xy = ''xy'') \<and> fr = rect_images_x disk \<and> sel = out_x \<or>
               xs = ''y'' \<and> (xy = ''y'' \<or> xy = ''xy'') \<and> fr = rect_images_y disk \<and> sel = out_y"
    and rg: "dict_get (parts_id self) part = Inr rg"
  shows "(i \<in> set (py_range (fst rg) (snd rg + 1)) \<and> py_index fr i = Inr fri \<and>
          prepare_rect ops self fri = Inr img \<and>
          \<not> (np_min img = Inr 0 \<and> (\<exists>mx. np_max img = Inr mx \<and> mx \<le> 1)) \<longrightarrow>
            (\<exists>e. rescale_rect img = Inl e) \<and>
            (\<exists>e. load_part ops self disk part xy rn sh g = Inl e)) \<and>
         (np_min img = Inr mn \<and> mn \<noteq> 0 \<longrightarrow>
            rescale_rect img =
              Inl (AssertionError ''Invalid rect image min value, it must be 0'')) \<and>
         (np_min img = Inr 0 \<and> np_max img = Inr mx \<and> 1 < mx \<longrightarrow>
            rescale_rect img =
              Inl (AssertionError ''Invalid rect image max value, it must be 1'')) \<and>
         (load_part ops self disk part xy rn sh g = Inr (out, g') \<and> sel out = Some s \<longrightarrow>
            (\<forall>im \<in> set (s_rect s). \<exists>j frj imj.
               j \<in> set (py_range (fst rg) (snd rg + 1)) \<and> py_index fr j = Inr frj \<and>
               prepare_rect ops self frj = Inr imj \<and> np_min imj = Inr 0 \<and>
               (\<exists>m. np_max imj = Inr m \<and> m \<le> 1) \<and>
               im = (fst imj, map (\<lambda>p. p * 255) (snd imj))))"
proof (intro conjI impI)
  assume b: "i \<in> set (py_range (fst rg) (snd rg + 1)) \<and> py_index fr i = Inr fri \<and>
          prepare_rect ops self fri = Inr img \<and>
          \<not> (np_min img = Inr 0 \<and> (\<exists>mx. np_max img = Inr mx \<and> mx \<le> 1))"
  then have nr: "\<not> (\<exists>y. rescale_rect img = Inr y)" by (simp add: rescale_rect_Inr)
  then show "\<exists>e. rescale_rect img = Inl e" by (cases "rescale_rect img") auto
  from b have "\<not> (\<exists>y. load_rect ops self fr i = Inr y)" by (auto simp: load_rect_Inr)
  then obtain e where "load_rect ops self fr i = Inl e"
    by (cases "load_rect ops self fr i") auto
  from load_rows_rect_fail [OF _ rg conjunct1 [OF b] this, of xs disk] xs
  obtain e' where "load_rows ops self disk part xs = Inl e'" by auto
  from load_part_not_Inr [OF _ this, of xy rn sh g] xs
  show "\<exists>e. load_part ops self disk part xy rn sh g = Inl e" by auto
next
  assume "np_min img = Inr mn \<and> mn \<noteq> 0"
  then show "rescale_rect img = Inl (AssertionError ''Invalid rect image min value, it must be 0'')"
    using rescale_rect_min [of img mn] by simp
next
  assume "np_min img = Inr 0 \<and> np_max img = Inr mx \<and> 1 < mx"
  then show "rescale_rect img = Inl (AssertionError ''Invalid rect image max value, it must be 1'')"
    using rescale_rect_max [of img mx] by (simp add: not_le)
next
  assume a: "load_part ops self disk part xy rn sh g = Inr (out, g') \<and> sel out = Some s"
  then have l: "load_part ops self disk part xy rn sh g = Inr (out, g')" by simp
  from a xs have "xs = ''x'' \<and> out_x out = Some s \<or> xs = ''y'' \<and> out_y out = Some s" by auto
  with load_part_streams(5,6) [OF l, of s] obtain g0 r where
    r: "load_data_part ops self disk part xs rn sh g0 = Inr r" "s = stream_entries (fst r)"
    by blast
  from load_data_part_rect_subset [OF r(1)] obtain d0 where
    d0: "load_rows ops self disk part xs = Inr d0" and sub: "set (s_rect s) \<subseteq> set (fst d0)"
    by (auto simp: r(2) s_rect_entries)
  from load_rows_rect(1) [OF d0] rg xs have
    m: "map_err (load_rect ops self fr) (py_range (fst rg) (snd rg + 1)) = Inr (fst d0)"
    by auto
  show "\<forall>im \<in> set (s_rect s). \<exists>j frj imj.
               j \<in> set (py_range (fst rg) (snd rg + 1)) \<and> py_index fr j = Inr frj \<and>
               prepare_rect ops self frj = Inr imj \<and> np_min imj = Inr 0 \<and>
               (\<exists>m. np_max imj = Inr m \<and> m \<le> 1) \<and>
               im = (fst imj, map (\<lambda>p. p * 255) (snd imj))"
  proof
    fix im assume "im \<in> set (s_rect s)"
    with sub have "im \<in> set (fst d0)" by blast
    then obtain k where k: "k < length (fst d0)" "im = fst d0 ! k" by (auto simp: in_set_conv_nth)
    from map_err_length [OF m] k have kl: "k < length (py_range (fst rg) (snd rg + 1))" by simp
    from map_err_nth [OF m kl] k
    have "load_rect ops self fr (py_range (fst rg) (snd rg + 1) ! k) = Inr im" by simp
    then obtain frj imj where
      "py_index fr (py_range (fst rg) (snd rg + 1) ! k) = Inr frj"
      "prepare_rect ops self frj = Inr imj" "np_min imj = Inr 0"
      "\<exists>m. np_max imj = Inr m \<and> m \<le> 1" "im = np_multiply_255 imj"
      unfolding load_rect_Inr by blast
    moreover have "py_range (fst rg) (snd rg + 1) ! k \<in> set (py_range (fst rg) (snd rg + 1))"
      using kl by simp
    ultimately show "\<exists>j frj imj.
               j \<in> set (py_range (fst rg) (snd rg + 1)) \<and> py_index fr j = Inr frj \<and>
               prepare_rect ops self frj = Inr imj \<and> np_min imj = Inr 0 \<and>
               (\<exists>m. np_max imj = Inr m \<and> m \<le> 1) \<and>
               im = (fst imj, map (\<lambda>p. p * 255) (snd imj))"
      unfolding np_multiply_255_def
      by (intro exI [of _ "py_range (fst rg) (snd rg + 1) ! k"] exI [of _ frj]
          exI [of _ imj] conjI)
  qed
qed

theorem C7_pixel_range_contract_witness:
  "(\<exists>e. load_part ex_ops ex_loader ex_shards_bad 2 ''xy'' False False [] = Inl e) \<and>
   rescale_rect ([1, 1, 2], [1, 1]) =
     Inl (AssertionError ''Invalid rect image min value, it must be 0'') \<and>
   load_part ex_ops ex_loader ex_shards 2 ''xy'' False False [] = Inr (ex_part2, []) \<and>
   (\<exists>s. out_x ex_part2 = Some s \<and>
      (\<forall>im \<in> set (s_rect s). \<exists>imj. np_min imj = Inr 0 \<and>
         im = (fst imj, map (\<lambda>p. p * 255) (snd imj))))"
proof -
  have xs: "''x'' = ''x'' \<and> (''xy'' = ''x'' \<or> ''xy'' = ''xy'') \<and>
      rect_images_x ex_shards_bad = rect_images_x ex_shards_bad \<and> out_x = out_x \<or>
      ''x'' = ''y'' \<and> (''xy'' = ''y'' \<or> ''xy'' = ''xy'') \<and>
      rect_images_x ex_shards_bad = rect_images_y ex_shards_bad \<and>
      (out_x :: unit part_data \<Rightarrow> unit stream_out option) = out_y"
    by simp
  have rg: "dict_get (parts_id ex_loader) 2 = Inr (2, 3)" by code_simp
  have mn: "np_min ([1, 1, 2], [1, 1]) = Inr 1 \<and> (1 :: 8 word) \<noteq> 0" by code_simp
  have b1: "3 \<in> set (py_range (fst (2, 3)) (snd (2, 3) + 1))" by code_simp
  have b2: "py_index (rect_images_x ex_shards_bad) 3 = Inr (ImgU8 [1, 1, 2] [1, 1])"
    by code_simp
  have b3: "prepare_rect ex_ops ex_loader (ImgU8 [1, 1, 2] [1, 1]) = Inr ([1, 1, 2], [1, 1])"
    by code_simp
  from mn have b4: "\<not> (np_min ([1, 1, 2], [1, 1]) = Inr 0 \<and>
         (\<exists>mx. np_max ([1, 1, 2], [1, 1]) = Inr mx \<and> mx \<le> 1))"
    by simp
  note b = conjI [OF b1 conjI [OF b2 conjI [OF b3 b4]]]
  note t = C7_pixel_range_contract [OF xs rg, of 3 "ImgU8 [1, 1, 2] [1, 1]" ex_ops
      "([1, 1, 2], [1, 1])" False False "[]" 1 1 ex_part2 "[]"
      "the (out_x ex_part2)"]
  note 1 = conjunct2 [OF mp [OF conjunct1 [OF t] b]]
  note 2 = mp [OF conjunct1 [OF conjunct2 [OF t]] mn]
  have xs': "''x'' = ''x'' \<and> (''xy'' = ''x'' \<or> ''xy'' = ''xy'') \<and>
      rect_images_x ex_shards = rect_images_x ex_shards \<and> out_x = out_x \<or>
      ''x'' = ''y'' \<and> (''xy'' = ''y'' \<or> ''xy'' = ''xy'') \<and>
      rect_images_x ex_shards = rect_images_y ex_shards \<and>
      (out_x :: unit part_data \<Rightarrow> unit stream_out option) = out_y"
    by simp
  obtain s where s: "out_x ex_part2 = Some s" by (simp add: ex_part2_def)
  note t' = C7_pixel_range_contract [OF xs' rg, of 3 "ImgU8 [1, 1, 2] [1, 1]" ex_ops
      "([1, 1, 2], [1, 1])" False False "[]" 1 1 ex_part2 "[]" s]
  note d = mp [OF conjunct2 [OF conjunct2 [OF conjunct2 [OF t']]]
      conjI [OF load_part2_ex [of "[]"] s]]
  from d
  have "\<forall>im \<in> set (s_rect s). \<exists>imj. np_min imj = Inr 0 \<and>
         im = (fst imj, map (\<lambda>p. p * 255) (snd imj))"
  proof (intro ballI)
    fix im assume "im \<in> set (s_rect s)"
    with d obtain imj where "np_min imj = Inr 0" "im = (fst imj, map (\<lambda>p. p * 255) (snd imj))"
      by blast
    then show "\<exists>imj. np_min imj = Inr 0 \<and> im = (fst imj, map (\<lambda>p. p * 255) (snd imj))"
      by (intro exI [of _ imj] conjI)
  qed
  with s have 3: "\<exists>s. out_x ex_part2 = Some s \<and>
      (\<forall>im \<in> set (s_rect s). \<exists>imj. np_min imj = Inr 0 \<and>
         im = (fst imj, map (\<lambda>p. p * 255) (snd imj)))"
    by (intro exI [of _ s] conjI)
  from 1 2 load_part2_ex [of "[]"] 3 show ?thesis by (intro conjI)
qed

text \<open>
  Claim C9, as stated: the loader reads the rows of a part at the positions
  \<open>first..last\<close>, and therefore the returned rows are the entries of the part exactly
  when every manifest line has its position in the list as global id. The second half
  fails from left to right. In the manifest below the record at position 1 has the
  global id 99; the parser accepts it, since it reads the ids of the first and the last
  record of a part only. The loader returns for each part the records of that part, and
  for part 2 the image ids 3, 4 of its range.
\<close>

theorem C9_rows_of_parts_with_an_id_off_its_position:
  "load_photo_parts gap_id_manifest =
     Inr (tl gap_id_manifest, parts_id gap_id_loader, parts_project_id gap_id_loader) \<and>
   load_data_part ex_ops gap_id_loader gap_id_shards 1 ''x'' False False [] =
     Inr ((gap_id_rows1, 0), []) \<and>
   load_data_part ex_ops gap_id_loader gap_id_shards 2 ''x'' False False [] =
     Inr ((gap_id_rows2, 0), []) \<and>
   map id_row (filter (\<lambda>l. get_part l = Inr 1) (photo_files_x gap_id_loader)) =
     [Inr (0, 7, 1, 1), Inr (99, 5, 1, 1), Inr (2, 6, 1, 1)] \<and>
   map id_row (filter (\<lambda>l. get_part l = Inr 2) (photo_files_x gap_id_loader)) =
     [Inr (3, 9, 2, 1), Inr (4, 8, 2, 2)] \<and>
   dict_get (parts_id gap_id_loader) 2 = Inr (3, 4) \<and>
   id_image (snd (snd gap_id_rows2)) = py_range 3 5 \<and>
   get_id (photo_files_x gap_id_loader ! 1) = Inr 99"
  by code_simp

text \<open>
  Claim C9, amended. When \<^verbatim>\<open>_load_data_part\<close> returns for the part with the range
  \<open>(first, last)\<close> (nothing removed, nothing shuffled), it returns as many rows as the
  range has ids, and row \<open>k\<close> holds the rect image that the loop makes of the image at
  position \<open>first + k\<close> of the concatenated rect array and the ID fields parsed from
  the manifest record at position \<open>first + k\<close> of the list of records: the global ids
  of the range are used as positions. The image ids returned are the ids
  \<open>first..last\<close> of the part exactly when every record that is read for the part, at a
  position \<open>j\<close> of the range, has the global id \<open>j\<close>. They are in particular when
  the range starts at a position from 0 on and every record of the list has its position
  as global id; the records outside the range of the part need not.
\<close>

theorem C9_ids_used_as_positions:
  assumes l: "load_data_part ops self disk part xs False False g = Inr ((d, removed), g')"
    and rg: "dict_get (parts_id self) part = Inr rg"
    and xs: "xs = ''x'' \<and> fr = rect_images_x disk \<and> n = photo_files_x self \<or>
             xs = ''y'' \<and> fr = rect_images_y disk \<and> n = photo_files_y self"
  shows "length (fst d) = length (py_range (fst rg) (snd rg + 1)) \<and>
     length (id_image (snd (snd d))) = length (py_range (fst rg) (snd rg + 1)) \<and>
     (\<forall>k < length (fst d).
        load_rect ops self fr (fst rg + int k) = Inr (fst d ! k) \<and>
        bind_err (py_index n (fst rg + int k)) id_row =
          Inr (id_image (snd (snd d)) ! k, id_rect (snd (snd d)) ! k,
               id_project (snd (snd d)) ! k, id_mutator (snd (snd d)) ! k)) \<and>
     (id_image (snd (snd d)) = py_range (fst rg) (snd rg + 1) \<longleftrightarrow>
        (\<forall>j \<in> set (py_range (fst rg) (snd rg + 1)).
           \<exists>line. py_index n j = Inr line \<and> get_id line = Inr j)) \<and>
     (0 \<le> fst rg \<and> (\<forall>p < length n. get_id (n ! p) = Inr (int p)) \<longrightarrow>
        id_image (snd (snd d)) = py_range (fst rg) (snd rg + 1))"
proof -
  from l obtain d0 where d0: "load_rows ops self disk part xs = Inr d0"
    by (cases "load_rows ops self disk part xs") (auto simp: load_data_part_error)
  from l have "d0 = d" by (simp add: load_data_part_select [OF d0])
  with d0 have "load_rows ops self disk part xs = Inr d" by simp
  from load_rows_positions [OF this rg xs] show ?thesis .
qed

theorem C9_ids_used_as_positions_witness:
  "load_data_part ex_ops ex_loader ex_shards 2 ''x'' False False [] = Inr ((ex_rows2x, 0), []) \<and>
   dict_get (parts_id ex_loader) 2 = Inr (2, 3) \<and>
   id_image (snd (snd ex_rows2x)) = py_range 2 4 \<and>
   load_rect ex_ops ex_loader (rect_images_x ex_shards) 3 = Inr (fst ex_rows2x ! 1) \<and>
   bind_err (py_index (photo_files_x ex_loader) 3) id_row = Inr (3, 8, 2, 2)"
proof -
  have rg: "dict_get (parts_id ex_loader) 2 = Inr (2, 3)" by code_simp
  have xs: "''x'' = ''x'' \<and> rect_images_x ex_shards = rect_images_x ex_shards \<and>
      photo_files_x ex_loader = photo_files_x ex_loader \<or>
      ''x'' = ''y'' \<and> rect_images_x ex_shards = rect_images_y ex_shards \<and>
      photo_files_x ex_loader = photo_files_y ex_loader"
    by simp
  note t = C9_ids_used_as_positions [OF load_data_part2x_ex rg xs]
  have p: "0 \<le> fst (2 :: int, 3 :: int) \<and>
      (\<forall>p < length (photo_files_x ex_loader). get_id (photo_files_x ex_loader ! p) = Inr (int p))"
    by code_simp
  note c = mp [OF conjunct2 [OF conjunct2 [OF conjunct2 [OF conjunct2 [OF t]]]] p]
  note k = conjunct1 [OF conjunct2 [OF conjunct2 [OF t]]]
  have l: "(1 :: nat) < length (fst ex_rows2x)" by (simp add: ex_rows2x_def)
  from mp [OF spec [OF k, of 1] l]
  have "load_rect ex_ops ex_loader (rect_images_x ex_shards) 3 = Inr (fst ex_rows2x ! 1)"
    "bind_err (py_index (photo_files_x ex_loader) 3) id_row = Inr (3, 8, 2, 2)"
    by (simp_all add: ex_rows2x_def)
  with c load_data_part2x_ex rg show ?thesis by simp
qed

section \<open>Claims about the structural equality and the session file\<close>



end
